theory Spec2Isabelle
  imports Main "HOL-Library.AList"
begin

section \<open>Transactions and the Address entity\<close>

text \<open>
  The model follows \<^verbatim>\<open>src/contexts/addresses.tsx\<close>. The class \<^verbatim>\<open>Address\<close> is a record, its
  nested object \<^verbatim>\<open>transactions\<close> a record of its own. \<^verbatim>\<open>bigint\<close> is \<open>int\<close>, an optional
  field is an \<open>option\<close>. Two field names are shared by several source types and carry a
  prefix here: \<^verbatim>\<open>PendingTx.type\<close> is \<open>txType\<close>, \<^verbatim>\<open>PendingTx.network\<close> is \<open>txNetwork\<close> and
  \<^verbatim>\<open>Transaction.hash\<close> is \<open>tx_hash\<close>.
\<close>

datatype TransactionType = Consolidation | Transfer | Sweep

record PendingTx =
  txId :: string
  fromAddress :: string
  toAddress :: string
  timestamp :: int
  txType :: TransactionType
  txNetwork :: string
  amount :: "int option"

text \<open>A confirmed transaction of the explorer API; the registry reads only its hash.\<close>

record Transaction =
  tx_hash :: string
  tx_timestamp :: int

record AddressSettings =
  isMain :: bool
  label :: "string option"
  color :: "string option"

record AddressInfo =
  balance :: string
  lockedBalance :: string
  txNumber :: nat

record AddressTransactions =
  confirmed :: "Transaction list"
  pending :: "PendingTx list"
  loadedPage :: nat

record Address =
  hash :: string
  shortHash :: string
  publicKey :: string
  privateKey :: string
  group :: nat
  index :: nat
  settings :: AddressSettings
  details :: AddressInfo
  transactions :: AddressTransactions
  availableBalance :: int
  lastUsed :: "int option"
  network :: "string option"

text \<open>
  The constructor. \<^verbatim>\<open>addressToGroup(hash, TOTAL_NUMBER_OF_GROUPS)\<close> belongs to the SDK and is
  the parameter \<open>groupOf\<close>.
\<close>

definition new_Address ::
  "(string \<Rightarrow> nat) \<Rightarrow> string \<Rightarrow> string \<Rightarrow> string \<Rightarrow> nat \<Rightarrow> AddressSettings \<Rightarrow> Address" where
  "new_Address groupOf h pub priv i s =
     \<lparr> hash = h,
       shortHash = take 10 h @ ''...'',
       publicKey = pub,
       privateKey = priv,
       group = groupOf h,
       index = i,
       settings = s,
       details = \<lparr> balance = '''', lockedBalance = '''', txNumber = 0 \<rparr>,
       transactions = \<lparr> confirmed = [], pending = [], loadedPage = 0 \<rparr>,
       availableBalance = 0,
       lastUsed = None,
       network = None \<rparr>"

definition addPendingTransaction :: "PendingTx \<Rightarrow> Address \<Rightarrow> Address" where
  "addPendingTransaction transaction this =
     this\<lparr>transactions := (transactions this)\<lparr>pending := pending (transactions this) @ [transaction]\<rparr>\<rparr>"

text \<open>
  \<^verbatim>\<open>tx.amount ? acc + BigInt(tx.amount) : acc\<close>: an absent amount and the amount \<open>0n\<close> are both
  falsy in JavaScript, so neither is added.
\<close>

definition addAmount :: "int \<Rightarrow> PendingTx \<Rightarrow> int" where
  "addAmount acc tx =
     (case amount tx of
        None \<Rightarrow> acc
      | Some v \<Rightarrow> if v \<noteq> 0 then acc + v else acc)"

definition isSweepOrConsolidation :: "PendingTx \<Rightarrow> bool" where
  "isSweepOrConsolidation tx = (txType tx = Sweep \<or> txType tx = Consolidation)"

text \<open>
  \<^verbatim>\<open>Address.updatePendingTransactions\<close>: first the pending list is filtered against the
  confirmed list (\<^verbatim>\<open>Array.find\<close> is \<open>find\<close>, and a found object is truthy), then the
  available balance is reduced by the total of what is still pending, or by all of itself
  when a sweep or a consolidation is still pending.
\<close>

definition updatePendingTransactions :: "Address \<Rightarrow> Address" where
  "updatePendingTransactions this =
     (let newPendingTransactions =
            filter (\<lambda>pendingTx.
                      find (\<lambda>confirmedTx. tx_hash confirmedTx = txId pendingTx)
                           (confirmed (transactions this)) = None)
                   (pending (transactions this));
          this1 = this\<lparr>transactions := (transactions this)\<lparr>pending := newPendingTransactions\<rparr>\<rparr>;
          pendingSweep = find isSweepOrConsolidation (pending (transactions this1));
          totalAmountOfPendingTxs =
            (case pendingSweep of
               Some _ \<Rightarrow> availableBalance this1
             | None \<Rightarrow> foldl addAmount 0 (pending (transactions this1)))
      in this1\<lparr>availableBalance := availableBalance this1 - totalAmountOfPendingTxs\<rparr>)"

text \<open>The amount a pending transaction is known to spend: nothing when it has none.\<close>

definition knownAmount :: "PendingTx \<Rightarrow> int" where
  "knownAmount tx = (case amount tx of None \<Rightarrow> 0 | Some v \<Rightarrow> v)"

section \<open>The addresses registry: state and environment\<close>

text \<open>
  \<^verbatim>\<open>Address\<close> objects are shared and mutated in place: the registry's \<^verbatim>\<open>Map\<close> holds
  references, and \<^verbatim>\<open>updateAddressesState\<close> writes the \<^verbatim>\<open>network\<close> field of the objects it is
  given. So the model has an explicit object store: a reference is a number, \<open>heap\<close> maps
  references to objects. The JavaScript \<^verbatim>\<open>Map\<close> keeps insertion order (\<^verbatim>\<open>values()\<close> is read in
  that order), so it is an association list: \<^verbatim>\<open>get\<close> is \<open>map_of\<close>, \<^verbatim>\<open>set\<close> is \<open>AList.update\<close>
  (in place for a key that is present, at the end otherwise).
\<close>

type_synonym ref = nat

datatype NetworkStatus = Offline | Connecting | Uninitialized | Online

text \<open>An unconfirmed transaction as the explorer returns it.\<close>

record UnconfirmedTx =
  utx_hash :: string
  utx_type :: string
  utx_lastSeen :: int

text \<open>
  The remote data client is not part of the registry. Each of its calls either throws
  (\<open>Inl\<close>, with the error) or returns: the three \<^verbatim>\<open>fetch\<close> calls return the address they
  were given as they leave it, the explorer query returns the list of transactions.
\<close>

record Client =
  fetchAddressDetails :: "Address \<Rightarrow> string + Address"
  fetchAddressConfirmedTransactions :: "Address \<Rightarrow> string + Address"
  fetchAddressConfirmedTransactionsNextPage :: "Address \<Rightarrow> string + Address"
  getAddressesAddressUnconfirmedTransactions :: "string \<Rightarrow> string + UnconfirmedTx list"

record AddressKeyPair =
  kp_hash :: string
  kp_publicKey :: string
  kp_privateKey :: string
  kp_index :: nat

text \<open>\<^verbatim>\<open>AddressMetadata\<close>: the settings of an address and its derivation index.\<close>

record AddressMetadata = AddressSettings +
  metaIndex :: nat

text \<open>
  What one render of \<^verbatim>\<open>AddressesContextProvider\<close> closes over: the values of the hooks
  (\<^verbatim>\<open>s.activeWallet\<close>, \<^verbatim>\<open>s.network\<close>, \<^verbatim>\<open>useGlobalContext()\<close>) and the imported functions that
  are not in the registry's file, which are parameters: the SDK's \<^verbatim>\<open>addressToGroup\<close> and
  \<^verbatim>\<open>TOTAL_NUMBER_OF_GROUPS\<close>, the helper \<^verbatim>\<open>convertUnconfirmedTxToPendingTx\<close> (it may throw),
  the two derivation workers (what each answers to a request) and the text JavaScript
  makes of a number in a template string.
\<close>

record Env =
  mnemonic :: "string option"
  isPassphraseUsed :: bool
  activeWalletName :: string
  networkName :: string
  networkStatus :: NetworkStatus
  client :: "Client option"
  groupOf :: "string \<Rightarrow> nat"
  convertUnconfirmedTxToPendingTx :: "UnconfirmedTx \<Rightarrow> string \<Rightarrow> string \<Rightarrow> string + PendingTx"
  deriveAddressesFromIndexes :: "string \<Rightarrow> nat list \<Rightarrow> AddressKeyPair list"
  TOTAL_NUMBER_OF_GROUPS :: nat
  deriveAddressesInGroups :: "string \<Rightarrow> nat list \<Rightarrow> nat list \<Rightarrow> (AddressKeyPair \<times> nat) list"
  numberToString :: "nat \<Rightarrow> string"

text \<open>What the registry does to the outside, in the order it does it.\<close>

datatype SnackbarMessage =
    CouldNotFetchOffline
  | ErrorFetchingData string string
  | ErrorFetchingPendingTxs string string

datatype ApiCall =
    CallFetchAddressDetails string
  | CallFetchAddressConfirmedTransactions string
  | CallFetchAddressConfirmedTransactionsNextPage string
  | CallGetAddressUnconfirmedTransactions string

datatype Action = AddressGenerationStarted | AddressesGenerated

datatype Event =
    SetSnackbarMessage SnackbarMessage
  | Called ApiCall
  | MetadataStored string nat AddressSettings
  | Dispatch Action
  | WorkerPostMessage string "nat list"
  | GroupsWorkerPostMessage string "nat list" "nat list"

record World =
  heap :: "ref \<Rightarrow> Address"
  nextRef :: ref
  addressesState :: "(string \<times> ref) list"
  stateUpdates :: nat
  isLoadingData :: bool
  storage :: "string \<Rightarrow> AddressMetadata list"
  events :: "Event list"

text \<open>\<^verbatim>\<open>new Address(...)\<close> makes a fresh object.\<close>

definition alloc :: "Address \<Rightarrow> World \<Rightarrow> ref \<times> World" where
  "alloc a w = (nextRef w, w\<lparr>heap := (heap w)(nextRef w := a), nextRef := Suc (nextRef w)\<rparr>)"

definition emit :: "Event \<Rightarrow> World \<Rightarrow> World" where
  "emit e w = w\<lparr>events := events w @ [e]\<rparr>"

text \<open>
  Modelled from the spec: the Address Metadata Store (\<^verbatim>\<open>AddressMetadataStorage\<close>, and
  \<^verbatim>\<open>storeAddressMetadataOfAccount\<close>, \<^verbatim>\<open>loadStoredAddressesMetadataOfAccount\<close> in the older
  provider) is not in the sources. It "persists per-address label/color/is-main flags keyed
  by wallet identity": \<open>load\<close> gives the stored list of a wallet, \<open>store\<close> puts the settings
  under the index, replacing what was stored for that index.
\<close>

definition AddressMetadataStorage_load :: "string \<Rightarrow> World \<Rightarrow> AddressMetadata list" where
  "AddressMetadataStorage_load walletName w = storage w walletName"

definition AddressMetadataStorage_store :: "string \<Rightarrow> nat \<Rightarrow> AddressSettings \<Rightarrow> World \<Rightarrow> World" where
  "AddressMetadataStorage_store walletName i s w =
     (let entry = AddressSettings.extend s \<lparr> metaIndex = i \<rparr>;
          old = storage w walletName;
          new = (if list_ex (\<lambda>m. metaIndex m = i) old
                 then map (\<lambda>m. if metaIndex m = i then entry else m) old
                 else old @ [entry])
      in emit (MetadataStored walletName i s) (w\<lparr>storage := (storage w)(walletName := new)\<rparr>))"

section \<open>The addresses registry: queries and the state update\<close>

text \<open>\<^verbatim>\<open>`${addressHash}-${network.name}`\<close>\<close>

definition constructMapKey :: "string \<Rightarrow> string \<Rightarrow> string" where
  "constructMapKey net addressHash = addressHash @ ''-'' @ net"

definition getAddress :: "string \<Rightarrow> World \<Rightarrow> string \<Rightarrow> ref option" where
  "getAddress net w addressHash = map_of (addressesState w) (constructMapKey net addressHash)"

text \<open>One turn of the loop of \<^verbatim>\<open>updateAddressesState\<close>.\<close>

definition stampAndSet :: "string \<Rightarrow> ref \<Rightarrow> World \<Rightarrow> World" where
  "stampAndSet net newAddress w =
     (let a = (heap w newAddress)\<lparr>network := Some net\<rparr>
      in w\<lparr>heap := (heap w)(newAddress := a),
           addressesState := AList.update (constructMapKey net (hash a)) newAddress (addressesState w)\<rparr>)"

text \<open>
  \<^verbatim>\<open>updateAddressesState\<close>: nothing at all for an empty list; otherwise one call of
  \<^verbatim>\<open>setAddressesState\<close> (counted in \<open>stateUpdates\<close>) with a copy of the map in which every
  given address, stamped with the current network, is set under its key.
\<close>

definition updateAddressesState :: "string \<Rightarrow> ref list \<Rightarrow> World \<Rightarrow> World" where
  "updateAddressesState net newAddresses w =
     (if length newAddresses = 0 then w
      else (fold (stampAndSet net) newAddresses w)\<lparr>stateUpdates := Suc (stateUpdates w)\<rparr>)"

definition setAddress :: "string \<Rightarrow> ref \<Rightarrow> World \<Rightarrow> World" where
  "setAddress net address w = updateAddressesState net [address] w"

definition addressesOfCurrentNetwork :: "string \<Rightarrow> World \<Rightarrow> ref list" where
  "addressesOfCurrentNetwork net w =
     filter (\<lambda>addressState. network (heap w addressState) = Some net) (map snd (addressesState w))"

definition addressesWithPendingSentTxs :: "string \<Rightarrow> World \<Rightarrow> ref list" where
  "addressesWithPendingSentTxs net w =
     filter (\<lambda>address.
               length (filter (\<lambda>pendingTx. txNetwork pendingTx = net)
                              (pending (transactions (heap w address)))) > 0)
            (addressesOfCurrentNetwork net w)"

definition addressesWithPendingReceivingTxs :: "string \<Rightarrow> World \<Rightarrow> ref list" where
  "addressesWithPendingReceivingTxs net w =
     filter (\<lambda>address.
               list_ex (\<lambda>addressWithPendingTx.
                          list_ex (\<lambda>pendingTx. toAddress pendingTx = hash (heap w address))
                                  (pending (transactions (heap w addressWithPendingTx))))
                       (addressesWithPendingSentTxs net w))
            (addressesOfCurrentNetwork net w)"

definition addressesToRefresh :: "string \<Rightarrow> World \<Rightarrow> ref list" where
  "addressesToRefresh net w = addressesWithPendingSentTxs net w @ addressesWithPendingReceivingTxs net w"

section \<open>The addresses registry: fetching\<close>

text \<open>
  \<^verbatim>\<open>displayDataFetchingError\<close>: one alert, "Could not fetch data because the wallet is
  offline".
\<close>

definition displayDataFetchingError :: "World \<Rightarrow> World" where
  "displayDataFetchingError w = emit (SetSnackbarMessage CouldNotFetchOffline) w"

text \<open>The guard \<^verbatim>\<open>!client || network.status === 'offline'\<close>, read as the client to use.\<close>

definition usableClient :: "Env \<Rightarrow> Client option" where
  "usableClient env =
     (case client env of
        None \<Rightarrow> None
      | Some c \<Rightarrow> if networkStatus env = Offline then None else Some c)"

text \<open>
  A call of the client on an address object. The fields \<^verbatim>\<open>hash\<close>, \<^verbatim>\<open>shortHash\<close>,
  \<^verbatim>\<open>publicKey\<close>, \<^verbatim>\<open>privateKey\<close>, \<^verbatim>\<open>group\<close> and \<^verbatim>\<open>index\<close> are \<^verbatim>\<open>readonly\<close>: whatever the client
  does to the object, they stay.
\<close>

definition keepReadonly :: "Address \<Rightarrow> Address \<Rightarrow> Address" where
  "keepReadonly old new =
     new\<lparr> hash := hash old, shortHash := shortHash old, publicKey := publicKey old,
          privateKey := privateKey old, group := group old, index := index old \<rparr>"

definition callOn :: "(Address \<Rightarrow> string + Address) \<Rightarrow> Address \<Rightarrow> string + Address" where
  "callOn f a = (case f a of Inl e \<Rightarrow> Inl e | Inr a' \<Rightarrow> Inr (keepReadonly a a'))"

text \<open>
  The body of the loop of \<^verbatim>\<open>fetchAndStoreAddressesData\<close> for one address, \<^verbatim>\<open>try\<close> and
  \<^verbatim>\<open>catch\<close>. The loop's variables are \<^verbatim>\<open>shouldUpdate\<close> and \<^verbatim>\<open>addressesToUpdate\<close>.
\<close>

definition refreshAddress ::
  "Client \<Rightarrow> bool \<Rightarrow> ref \<Rightarrow> bool \<times> ref list \<times> World \<Rightarrow> bool \<times> ref list \<times> World" where
  "refreshAddress c checkingForPendingTransactions address st =
     (case st of (shouldUpdate, addressesToUpdate, w) \<Rightarrow>
        let h = hash (heap w address);
            w1 = emit (Called (CallFetchAddressDetails h)) w
        in case callOn (fetchAddressDetails c) (heap w1 address) of
             Inl e \<Rightarrow>
               (shouldUpdate, addressesToUpdate, emit (SetSnackbarMessage (ErrorFetchingData h e)) w1)
           | Inr a1 \<Rightarrow>
               let w2 = emit (Called (CallFetchAddressConfirmedTransactions h))
                             (w1\<lparr>heap := (heap w1)(address := a1)\<rparr>)
               in case callOn (fetchAddressConfirmedTransactions c) a1 of
                    Inl e \<Rightarrow>
                      (shouldUpdate, addressesToUpdate,
                       emit (SetSnackbarMessage (ErrorFetchingData h e)) w2)
                  | Inr a2 \<Rightarrow>
                      let initialNumberOfPendingTransactions = length (pending (transactions a2));
                          a3 = updatePendingTransactions a2;
                          w3 = w2\<lparr>heap := (heap w2)(address := a3)\<rparr>;
                          shouldUpdate' =
                            (if checkingForPendingTransactions
                                \<and> length (pending (transactions a3)) \<noteq> initialNumberOfPendingTransactions
                             then True else shouldUpdate)
                      in (shouldUpdate',
                          if shouldUpdate' then addressesToUpdate @ [address] else addressesToUpdate,
                          w3))"

text \<open>
  \<^verbatim>\<open>fetchAndStoreAddressesData\<close> from \<^verbatim>\<open>setIsLoadingData(true)\<close> on; the older provider has
  the same text after its own guard.
\<close>

definition refreshAddresses :: "Client \<Rightarrow> string \<Rightarrow> ref list \<Rightarrow> bool \<Rightarrow> World \<Rightarrow> World" where
  "refreshAddresses c net addresses checkingForPendingTransactions w =
     (let w1 = w\<lparr>isLoadingData := True\<rparr>;
          addressesStateToRefresh =
            (if length addresses > 0 then addresses else addressesOfCurrentNetwork net w)
      in case fold (refreshAddress c checkingForPendingTransactions) addressesStateToRefresh
                   (\<not> checkingForPendingTransactions, [], w1) of
           (shouldUpdate, addressesToUpdate, w2) \<Rightarrow>
             (if shouldUpdate then updateAddressesState net addressesToUpdate w2 else w2)
               \<lparr>isLoadingData := False\<rparr>)"

definition fetchAndStoreAddressesData :: "Env \<Rightarrow> ref list \<Rightarrow> bool \<Rightarrow> World \<Rightarrow> World" where
  "fetchAndStoreAddressesData env addresses checkingForPendingTransactions w =
     (case usableClient env of
        None \<Rightarrow> updateAddressesState (networkName env) addresses (displayDataFetchingError w)
      | Some c \<Rightarrow> refreshAddresses c (networkName env) addresses checkingForPendingTransactions w)"

text \<open>
  The \<^verbatim>\<open>forEach\<close> of \<^verbatim>\<open>fetchPendingTxs\<close> over the transactions of one address. When the
  conversion throws, the transactions pushed so far stay and the error goes to the \<^verbatim>\<open>catch\<close>.
\<close>

fun addUnconfirmedTxs :: "Env \<Rightarrow> UnconfirmedTx list \<Rightarrow> Address \<Rightarrow> Address \<times> string option" where
  "addUnconfirmedTxs env [] a = (a, None)"
| "addUnconfirmedTxs env (tx # txs) a =
     (if utx_type tx = ''Unconfirmed''
         \<and> \<not> list_ex (\<lambda>t. txId t = utx_hash tx) (pending (transactions a))
      then (case convertUnconfirmedTxToPendingTx env tx (hash a) (networkName env) of
              Inl e \<Rightarrow> (a, Some e)
            | Inr pendingTx \<Rightarrow> addUnconfirmedTxs env txs (addPendingTransaction pendingTx a))
      else addUnconfirmedTxs env txs a)"

definition fetchPendingTxsOf :: "Env \<Rightarrow> Client \<Rightarrow> ref \<Rightarrow> World \<Rightarrow> World" where
  "fetchPendingTxsOf env c address w =
     (let h = hash (heap w address);
          w1 = emit (Called (CallGetAddressUnconfirmedTransactions h)) w
      in case getAddressesAddressUnconfirmedTransactions c h of
           Inl e \<Rightarrow> emit (SetSnackbarMessage (ErrorFetchingPendingTxs h e)) w1
         | Inr txs \<Rightarrow>
             (case addUnconfirmedTxs env txs (heap w1 address) of
                (a, None) \<Rightarrow> w1\<lparr>heap := (heap w1)(address := a)\<rparr>
              | (a, Some e) \<Rightarrow>
                  emit (SetSnackbarMessage (ErrorFetchingPendingTxs h e))
                       (w1\<lparr>heap := (heap w1)(address := a)\<rparr>)))"

definition fetchPendingTxs :: "Env \<Rightarrow> ref list \<Rightarrow> World \<Rightarrow> World" where
  "fetchPendingTxs env addresses w =
     (case usableClient env of
        None \<Rightarrow> displayDataFetchingError w
      | Some c \<Rightarrow>
          let w1 = w\<lparr>isLoadingData := True\<rparr>;
              addressesToCheck =
                (if length addresses > 0 then addresses
                 else addressesOfCurrentNetwork (networkName env) w)
          in (fold (fetchPendingTxsOf env c) addressesToCheck w1)\<lparr>isLoadingData := False\<rparr>)"

text \<open>
  \<^verbatim>\<open>fetchAddressTransactionsNextPage\<close> has no \<^verbatim>\<open>catch\<close>: an error of the client rejects the
  returned promise, after \<^verbatim>\<open>setIsLoadingData(true)\<close>.
\<close>

datatype Outcome = Resolved World | Rejected string World

definition fetchAddressTransactionsNextPage :: "Env \<Rightarrow> ref \<Rightarrow> World \<Rightarrow> Outcome" where
  "fetchAddressTransactionsNextPage env address w =
     (case usableClient env of
        None \<Rightarrow> Resolved w
      | Some c \<Rightarrow>
          let w1 = emit (Called (CallFetchAddressConfirmedTransactionsNextPage (hash (heap w address))))
                        (w\<lparr>isLoadingData := True\<rparr>)
          in case callOn (fetchAddressConfirmedTransactionsNextPage c) (heap w1 address) of
               Inl e \<Rightarrow> Rejected e w1
             | Inr a \<Rightarrow> Resolved (w1\<lparr>heap := (heap w1)(address := a), isLoadingData := False\<rparr>))"

text \<open>The world an outcome leaves.\<close>

fun worldOf :: "Outcome \<Rightarrow> World" where
  "worldOf (Resolved w) = w"
| "worldOf (Rejected e w) = w"

text \<open>The calls of the remote API and the offline alerts among the events.\<close>

definition apiCalls :: "World \<Rightarrow> ApiCall list" where
  "apiCalls w = concat (map (\<lambda>e. case e of Called c \<Rightarrow> [c] | _ \<Rightarrow> []) (events w))"

definition offlineAlerts :: "World \<Rightarrow> nat" where
  "offlineAlerts w = length (filter (\<lambda>e. e = SetSnackbarMessage CouldNotFetchOffline) (events w))"

section \<open>The addresses registry: saving an address\<close>

text \<open>A string that may be \<^verbatim>\<open>undefined\<close> is truthy when it is there and not empty.\<close>

definition truthy :: "string option \<Rightarrow> bool" where
  "truthy s = (case s of None \<Rightarrow> False | Some v \<Rightarrow> v \<noteq> [])"

definition js_or :: "string option \<Rightarrow> string option \<Rightarrow> string option" where
  "js_or a b = (if truthy a then a else b)"

datatype error = Error string

text \<open>
  The two fetches \<^verbatim>\<open>saveNewAddress\<close> starts are not awaited: they are returned as the tasks
  it has started, to be run by \<open>runTask\<close>.
\<close>

datatype Task = FetchAndStoreAddressesData "ref list" bool | FetchPendingTxs "ref list"

fun runTask :: "Env \<Rightarrow> Task \<Rightarrow> World \<Rightarrow> World" where
  "runTask env (FetchAndStoreAddressesData addresses checking) w =
     fetchAndStoreAddressesData env addresses checking w"
| "runTask env (FetchPendingTxs addresses) w = fetchPendingTxs env addresses w"

text \<open>
  \<^verbatim>\<open>saveNewAddress(newAddress, mnemonic?)\<close>. The parameter \<^verbatim>\<open>mnemonic\<close> hides the
  \<^verbatim>\<open>mnemonic\<close> of the active wallet inside the function, so \<^verbatim>\<open>mnemonic || mnemonic\<close> reads the
  parameter twice; \<open>mnemonic env\<close>, the wallet's secret, is not read.
\<close>

definition saveNewAddress :: "Env \<Rightarrow> ref \<Rightarrow> string option \<Rightarrow> World \<Rightarrow> error + World \<times> Task list" where
  "saveNewAddress env newAddress mnemonicArg w =
     (let mnemonic' = js_or mnemonicArg mnemonicArg
      in if \<not> truthy mnemonic' then Inl (Error ''Could not save new address, mnemonic not found'')
         else
           let w1 = (if \<not> isPassphraseUsed env
                     then AddressMetadataStorage_store (activeWalletName env)
                            (index (heap w newAddress)) (settings (heap w newAddress)) w
                     else w);
               w2 = setAddress (networkName env) newAddress w1
           in Inr (w2, [FetchAndStoreAddressesData [newAddress] False, FetchPendingTxs [newAddress]]))"

text \<open>\<^verbatim>\<open>updateAddressSettings\<close> reads the wallet's secret.\<close>

definition updateAddressSettings :: "Env \<Rightarrow> ref \<Rightarrow> AddressSettings \<Rightarrow> World \<Rightarrow> error + World" where
  "updateAddressSettings env address newSettings w =
     (if \<not> truthy (mnemonic env)
      then Inl (Error ''Could not update address settings, mnemonic not found'')
      else
        let w1 = (if \<not> isPassphraseUsed env
                  then AddressMetadataStorage_store (activeWalletName env)
                         (index (heap w address)) newSettings w
                  else w);
            w2 = w1\<lparr>heap := (heap w1)(address := (heap w1 address)\<lparr>settings := newSettings\<rparr>)\<rparr>
        in Inr (setAddress (networkName env) address w2))"

text \<open>
  The \<^verbatim>\<open>forEach\<close> of the callback of \<^verbatim>\<open>generateOneAddressPerGroup\<close>: every derived key pair
  becomes a new address that is saved with \<^verbatim>\<open>saveNewAddress(address)\<close>, without a second
  argument. An error thrown on the way ends the loop; what was done before stays.
\<close>

fun saveGenerated ::
  "Env \<Rightarrow> bool \<Rightarrow> string \<Rightarrow> string \<Rightarrow> (AddressKeyPair \<times> nat) list \<Rightarrow> World
     \<Rightarrow> error option \<times> World \<times> Task list" where
  "saveGenerated env hasLabel labelPrefix labelColor [] w = (None, w, [])"
| "saveGenerated env hasLabel labelPrefix labelColor ((kp, g) # rest) w =
     (case alloc (new_Address (groupOf env) (kp_hash kp) (kp_publicKey kp) (kp_privateKey kp)
                    (kp_index kp)
                    \<lparr> isMain = False,
                      label = Some (if hasLabel then labelPrefix @ '' '' @ numberToString env g else []),
                      color = Some (if hasLabel then labelColor else []) \<rparr>) w of
        (r, w1) \<Rightarrow>
          (case saveNewAddress env r None w1 of
             Inl e \<Rightarrow> (Some e, w1, [])
           | Inr (w2, started) \<Rightarrow>
               (case saveGenerated env hasLabel labelPrefix labelColor rest w2 of
                  (e, w3, started') \<Rightarrow> (e, w3, started @ started'))))"

text \<open>
  \<^verbatim>\<open>generateOneAddressPerGroup\<close>; the request to the worker and the one call of its
  \<^verbatim>\<open>onmessage\<close> callback are run in sequence. It reads the wallet's secret.
\<close>

definition generateOneAddressPerGroup ::
  "Env \<Rightarrow> string option \<Rightarrow> string option \<Rightarrow> nat list \<Rightarrow> World \<Rightarrow> error option \<times> World \<times> Task list" where
  "generateOneAddressPerGroup env labelPrefix labelColor skipGroups w =
     (case mnemonic env of
        None \<Rightarrow> (Some (Error ''Could not generate addresses, mnemonic not found''), w, [])
      | Some m \<Rightarrow>
          if m = [] then (Some (Error ''Could not generate addresses, mnemonic not found''), w, [])
          else
            let w1 = emit (Dispatch AddressGenerationStarted) w;
                skipAddressIndexes =
                  map (\<lambda>a. index (heap w a)) (addressesOfCurrentNetwork (networkName env) w);
                hasLabel = (truthy labelPrefix \<and> truthy labelColor);
                groups = filter (\<lambda>g. g \<notin> set skipGroups) [0 ..< TOTAL_NUMBER_OF_GROUPS env];
                w2 = emit (GroupsWorkerPostMessage m groups skipAddressIndexes) w1;
                data = deriveAddressesInGroups env m groups skipAddressIndexes
            in case saveGenerated env hasLabel
                      (case labelPrefix of None \<Rightarrow> [] | Some p \<Rightarrow> p)
                      (case labelColor of None \<Rightarrow> [] | Some c \<Rightarrow> c) data w2 of
                 (Some e, w3, started) \<Rightarrow> (Some e, w3, started)
               | (None, w3, started) \<Rightarrow> (None, emit (Dispatch AddressesGenerated) w3, started))"

section \<open>The addresses registry: the polling effect\<close>

text \<open>
  The effect computes \<^verbatim>\<open>addressesToRefresh\<close> when it is set up and starts an interval. The
  callback of the interval fetches for these addresses when there are any and clears the
  interval otherwise; a cleared interval calls nothing. React sets the effect up again
  when the state of the registry changes.
\<close>

record Polling =
  toRefresh :: "ref list"
  cleared :: bool

definition setupPolling :: "Env \<Rightarrow> World \<Rightarrow> Polling" where
  "setupPolling env w = \<lparr> toRefresh = addressesToRefresh (networkName env) w, cleared = False \<rparr>"

definition tick :: "Env \<Rightarrow> Polling \<times> World \<Rightarrow> Polling \<times> World" where
  "tick env pw =
     (case pw of (p, w) \<Rightarrow>
        if cleared p then (p, w)
        else if length (toRefresh p) > 0
             then (p, fetchAndStoreAddressesData env (toRefresh p) True w)
             else (p\<lparr>cleared := True\<rparr>, w))"

text \<open>
  What happens to the effect over time: a period of the interval passes (\<open>Tick\<close>), or the
  component renders again (\<open>Render\<close>), which clears the interval and sets the effect up on
  the state as it then is (the effect depends on arrays that every render makes anew).
\<close>

datatype PollingEvent = Tick | Render

fun polling :: "Env \<Rightarrow> PollingEvent list \<Rightarrow> Polling \<times> World \<Rightarrow> Polling \<times> World" where
  "polling env [] pw = pw"
| "polling env (Tick # es) pw = polling env es (tick env pw)"
| "polling env (Render # es) pw = polling env es (setupPolling env (snd pw), snd pw)"

section \<open>The addresses registry: initialization\<close>

text \<open>Several \<^verbatim>\<open>new Address(...)\<close> in a row, as \<^verbatim>\<open>Array.map\<close> makes them.\<close>

fun allocAll :: "Address list \<Rightarrow> World \<Rightarrow> ref list \<times> World" where
  "allocAll [] w = ([], w)"
| "allocAll (a # as) w =
     (case alloc a w of (r, w1) \<Rightarrow>
        case allocAll as w1 of (rs, w2) \<Rightarrow> (r # rs, w2))"

text \<open>
  The address the worker's callback makes of a derived key pair: the settings are those
  stored for its index (\<^verbatim>\<open>metadata?.isMain || false\<close>, \<^verbatim>\<open>metadata?.label\<close>,
  \<^verbatim>\<open>metadata?.color\<close>).
\<close>

definition addressOfKeyPair :: "Env \<Rightarrow> AddressMetadata list \<Rightarrow> AddressKeyPair \<Rightarrow> Address" where
  "addressOfKeyPair env addressesMetadata kp =
     (let metadata = find (\<lambda>m. metaIndex m = kp_index kp) addressesMetadata
      in new_Address (groupOf env) (kp_hash kp) (kp_publicKey kp) (kp_privateKey kp) (kp_index kp)
           \<lparr> isMain = (case metadata of None \<Rightarrow> False | Some m \<Rightarrow> isMain m),
             label = (case metadata of None \<Rightarrow> None | Some m \<Rightarrow> label m),
             color = (case metadata of None \<Rightarrow> None | Some m \<Rightarrow> color m) \<rparr>)"

text \<open>
  \<^verbatim>\<open>initializeCurrentNetworkAddresses\<close> of the provider (first in the file). The request to
  the derivation worker and the one call of its \<^verbatim>\<open>onmessage\<close> callback are run in sequence.
  There is no branch for an empty list of metadata.
\<close>

definition initializeCurrentNetworkAddresses :: "Env \<Rightarrow> World \<Rightarrow> error + World" where
  "initializeCurrentNetworkAddresses env w =
     (case mnemonic env of
        None \<Rightarrow> Inl (Error ''Could not initialize addresses, mnemonic not found'')
      | Some m \<Rightarrow>
          if m = [] then Inl (Error ''Could not initialize addresses, mnemonic not found'')
          else
            let addressesMetadata =
                  (if isPassphraseUsed env then []
                   else AddressMetadataStorage_load (activeWalletName env) w)
            in if length addressesMetadata > 0
               then
                 let w1 = emit (Dispatch AddressGenerationStarted) w;
                     w2 = emit (WorkerPostMessage m (map metaIndex addressesMetadata)) w1;
                     data = deriveAddressesFromIndexes env m (map metaIndex addressesMetadata)
                 in case allocAll (map (addressOfKeyPair env addressesMetadata) data) w2 of
                      (addressesToFetchData, w3) \<Rightarrow>
                        let w4 = updateAddressesState (networkName env) addressesToFetchData w3;
                            w5 = fetchAndStoreAddressesData env addressesToFetchData False w4;
                            w6 = fetchPendingTxs env addressesToFetchData w5
                        in Inr (emit (Dispatch AddressesGenerated) w6)
               else Inr w)"

subsection \<open>The older provider (second in the file)\<close>

text \<open>
  The file holds an older \<^verbatim>\<open>AddressesContextProvider\<close> as well, built on a wallet object and
  an account name. Its \<^verbatim>\<open>Address\<close> class, \<^verbatim>\<open>updateAddressesState\<close> and the loop of
  \<^verbatim>\<open>fetchAndStoreAddressesData\<close> have the text of the newer one; what differs is modelled
  here with the suffix \<open>_legacy\<close>.
\<close>

record Wallet =
  wallet_address :: string
  wallet_publicKey :: string
  wallet_privateKey :: string
  wallet_seed :: string

record LegacyEnv =
  currentAccountName :: string
  wallet :: "Wallet option"
  legacyClient :: "Client option"
  currentNetwork :: string
  legacyGroupOf :: "string \<Rightarrow> nat"
  deriveNewAddressData :: "string \<Rightarrow> nat \<Rightarrow> string \<times> string \<times> string"

definition fetchAndStoreAddressesData_legacy :: "LegacyEnv \<Rightarrow> ref list \<Rightarrow> bool \<Rightarrow> World \<Rightarrow> World" where
  "fetchAndStoreAddressesData_legacy env addresses checkingForPendingTransactions w =
     (case legacyClient env of
        None \<Rightarrow> w
      | Some c \<Rightarrow> refreshAddresses c (currentNetwork env) addresses checkingForPendingTransactions w)"

definition saveNewAddress_legacy :: "LegacyEnv \<Rightarrow> ref \<Rightarrow> World \<Rightarrow> World" where
  "saveNewAddress_legacy env newAddress w =
     fetchAndStoreAddressesData_legacy env [newAddress] False
       (AddressMetadataStorage_store (currentAccountName env)
          (index (heap w newAddress)) (settings (heap w newAddress)) w)"

definition derivedAddress_legacy :: "LegacyEnv \<Rightarrow> Wallet \<Rightarrow> AddressMetadata \<Rightarrow> Address" where
  "derivedAddress_legacy env wl md =
     (case deriveNewAddressData env (wallet_seed wl) (metaIndex md) of
        (a, pub, priv) \<Rightarrow>
          new_Address (legacyGroupOf env) a pub priv (metaIndex md) (AddressSettings.truncate md))"

text \<open>
  \<^verbatim>\<open>new Address(wallet.address, wallet.publicKey, wallet.privateKey, 0, {isMain: true, ...})\<close>
\<close>

definition defaultAddress :: "LegacyEnv \<Rightarrow> Wallet \<Rightarrow> Address" where
  "defaultAddress env wl =
     new_Address (legacyGroupOf env) (wallet_address wl) (wallet_publicKey wl) (wallet_privateKey wl) 0
       \<lparr> isMain = True, label = None, color = None \<rparr>"

definition initializeCurrentNetworkAddresses_legacy :: "LegacyEnv \<Rightarrow> World \<Rightarrow> World" where
  "initializeCurrentNetworkAddresses_legacy env w =
     (if currentAccountName env = [] then w
      else case wallet env of
             None \<Rightarrow> w
           | Some wl \<Rightarrow>
               let addressesMetadata = AddressMetadataStorage_load (currentAccountName env) w
               in if length addressesMetadata = 0
                  then (case alloc (defaultAddress env wl) w of
                          (r, w1) \<Rightarrow> saveNewAddress_legacy env r w1)
                  else (case allocAll (map (derivedAddress_legacy env wl) addressesMetadata) w of
                          (addressesToFetchData, w1) \<Rightarrow>
                            fetchAndStoreAddressesData_legacy env addressesToFetchData False w1))"

text \<open>
  The two effects of the older provider and the refs they share: \<^verbatim>\<open>previousClient\<close> starts
  \<^verbatim>\<open>undefined\<close>, \<^verbatim>\<open>previousWallet\<close> starts as the wallet of the first render. An object is
  identified with its value here, so \<^verbatim>\<open>!==\<close> is \<open>\<noteq>\<close>.
\<close>

record LegacyRefs =
  previousClient :: "Client option"
  previousWallet :: "Wallet option"

definition initialRefs_legacy :: "LegacyEnv \<Rightarrow> LegacyRefs" where
  "initialRefs_legacy env = \<lparr> previousClient = None, previousWallet = wallet env \<rparr>"

text \<open>"Clean state when locking the wallet or changing accounts".\<close>

definition cleanStateEffect_legacy :: "LegacyEnv \<Rightarrow> LegacyRefs \<times> World \<Rightarrow> LegacyRefs \<times> World" where
  "cleanStateEffect_legacy env rw =
     (case rw of (refs, w) \<Rightarrow>
        if wallet env = None \<or> wallet env \<noteq> previousWallet refs
        then (refs\<lparr> previousClient := None, previousWallet := wallet env \<rparr>,
              w\<lparr> addressesState := [], stateUpdates := Suc (stateUpdates w) \<rparr>)
        else (refs, w))"

text \<open>
  The effect that holds \<^verbatim>\<open>initializeCurrentNetworkAddresses\<close>: it calls the function only
  when there is a wallet and the client or the wallet is not the one of the refs, and
  then records both in the refs.
\<close>

definition initializationEffect_legacy :: "LegacyEnv \<Rightarrow> LegacyRefs \<times> World \<Rightarrow> LegacyRefs \<times> World" where
  "initializationEffect_legacy env rw =
     (case rw of (refs, w) \<Rightarrow>
        if wallet env \<noteq> None
           \<and> (previousClient refs \<noteq> legacyClient env \<or> previousWallet refs \<noteq> wallet env)
        then (refs\<lparr> previousClient := legacyClient env, previousWallet := wallet env \<rparr>,
              initializeCurrentNetworkAddresses_legacy env w)
        else (refs, w))"

text \<open>
  Both effects in the order of the file, as they run when the component mounts and when
  the wallet changes; \<open>mount_legacy\<close> is the first run, on the initial refs.
\<close>

definition commit_legacy :: "LegacyEnv \<Rightarrow> LegacyRefs \<times> World \<Rightarrow> LegacyRefs \<times> World" where
  "commit_legacy env rw = initializationEffect_legacy env (cleanStateEffect_legacy env rw)"

definition mount_legacy :: "LegacyEnv \<Rightarrow> World \<Rightarrow> LegacyRefs \<times> World" where
  "mount_legacy env w = commit_legacy env (initialRefs_legacy env, w)"

section \<open>Example data\<close>

text \<open>
  The scenario of the specification: address A with available balance 100 and a pending
  transfer of 30 to B; besides it a pending sweep and a pending transfer whose amount is
  not known.
\<close>

definition tx_transfer30 :: PendingTx where
  "tx_transfer30 =
     \<lparr> txId = ''tx1'', fromAddress = ''A'', toAddress = ''B'', timestamp = 1,
       txType = Transfer, txNetwork = ''mainnet'', amount = Some 30 \<rparr>"

definition tx_sweep :: PendingTx where
  "tx_sweep =
     \<lparr> txId = ''tx2'', fromAddress = ''A'', toAddress = ''C'', timestamp = 2,
       txType = Sweep, txNetwork = ''mainnet'', amount = None \<rparr>"

definition tx_unknown :: PendingTx where
  "tx_unknown =
     \<lparr> txId = ''tx3'', fromAddress = ''A'', toAddress = ''B'', timestamp = 3,
       txType = Transfer, txNetwork = ''mainnet'', amount = None \<rparr>"

definition confirmedTx :: "string \<Rightarrow> Transaction" where
  "confirmedTx h = \<lparr> tx_hash = h, tx_timestamp = 5 \<rparr>"

definition addressA :: "Transaction list \<Rightarrow> PendingTx list \<Rightarrow> Address" where
  "addressA cs ps =
     (new_Address (\<lambda>_. 0) ''A'' ''pubA'' ''privA'' 0 \<lparr> isMain = True, label = None, color = None \<rparr>)
       \<lparr> transactions := \<lparr> confirmed = cs, pending = ps, loadedPage = 0 \<rparr>,
         availableBalance := 100 \<rparr>"

text \<open>
  A client whose calls all succeed and change nothing, an unlocked wallet on mainnet, and
  a registry that holds nothing yet.
\<close>

definition idleClient :: Client where
  "idleClient =
     \<lparr> fetchAddressDetails = Inr,
       fetchAddressConfirmedTransactions = Inr,
       fetchAddressConfirmedTransactionsNextPage = Inr,
       getAddressesAddressUnconfirmedTransactions = (\<lambda>_. Inr []) \<rparr>"

definition unlockedEnv :: Env where
  "unlockedEnv =
     \<lparr> mnemonic = Some ''abandon ability able'',
       isPassphraseUsed = False,
       activeWalletName = ''W'',
       networkName = ''mainnet'',
       networkStatus = Online,
       client = Some idleClient,
       groupOf = (\<lambda>_. 0),
       convertUnconfirmedTxToPendingTx = (\<lambda>_ _ _. Inl ''Missing transaction details''),
       deriveAddressesFromIndexes = (\<lambda>_ _. []),
       TOTAL_NUMBER_OF_GROUPS = 4,
       deriveAddressesInGroups = (\<lambda>_ _ _. []),
       numberToString = (\<lambda>_. ''0'') \<rparr>"

definition blankAddress :: Address where
  "blankAddress = new_Address (\<lambda>_. 0) [] [] [] 0 \<lparr> isMain = False, label = None, color = None \<rparr>"

definition emptyWorld :: World where
  "emptyWorld =
     \<lparr> heap = (\<lambda>_. blankAddress),
       nextRef = 0,
       addressesState = [],
       stateUpdates = 0,
       isLoadingData = False,
       storage = (\<lambda>_. []),
       events = [] \<rparr>"

definition legacyEnv :: LegacyEnv where
  "legacyEnv =
     \<lparr> currentAccountName = ''W'',
       wallet = Some \<lparr> wallet_address = ''A'', wallet_publicKey = ''pubA'',
                       wallet_privateKey = ''privA'', wallet_seed = ''seed'' \<rparr>,
       legacyClient = Some idleClient,
       currentNetwork = ''mainnet'',
       legacyGroupOf = (\<lambda>_. 0),
       deriveNewAddressData = (\<lambda>_ _. ([], [], [])) \<rparr>"

definition addressB :: Address where
  "addressB = new_Address (\<lambda>_. 0) ''B'' ''pubB'' ''privB'' 1 \<lparr> isMain = False, label = None, color = None \<rparr>"

text \<open>Two address objects, A with its pending transfer to B, and no entry in the registry.\<close>

definition worldAB :: World where
  "worldAB =
     emptyWorld\<lparr> heap := (\<lambda>_. blankAddress)(0 := addressA [] [tx_transfer30], 1 := addressB),
                 nextRef := 2 \<rparr>"

definition offlineEnv :: Env where
  "offlineEnv = unlockedEnv\<lparr> networkStatus := Offline \<rparr>"

text \<open>B is registered on testnet.\<close>

definition worldT :: World where
  "worldT = updateAddressesState ''testnet'' [1] worldAB"

text \<open>B alone is registered on mainnet; A alone is registered on mainnet.\<close>

definition worldB :: World where
  "worldB = updateAddressesState ''mainnet'' [1] worldAB"

definition worldA :: World where
  "worldA = updateAddressesState ''mainnet'' [0] worldAB"



section \<open>Reconciliation of pending against confirmed transactions\<close>

lemma find_None_iff_hash: "(find (\<lambda>c. tx_hash c = i) cs = None) = (i \<notin> tx_hash ` set cs)"
  by (induction cs) auto

lemma pending_update:
  "pending (transactions (updatePendingTransactions a)) =
     filter (\<lambda>p. txId p \<notin> tx_hash ` set (confirmed (transactions a))) (pending (transactions a))"
  by (simp add: updatePendingTransactions_def Let_def find_None_iff_hash)

lemma confirmed_update:
  "confirmed (transactions (updatePendingTransactions a)) = confirmed (transactions a)"
  by (simp add: updatePendingTransactions_def Let_def)

lemma foldl_addAmount: "foldl addAmount acc txs = acc + sum_list (map knownAmount txs)"
  by (induction txs arbitrary: acc) (auto simp: addAmount_def knownAmount_def split: option.splits)

lemma sum_knownAmount_unknown:
  "\<forall>tx\<in>set txs. txType tx = Transfer \<and> amount tx = None \<Longrightarrow> sum_list (map knownAmount txs) = 0"
  by (induction txs) (auto simp: knownAmount_def)

lemma find_sweep_None: "(find isSweepOrConsolidation txs = None) = (\<forall>tx\<in>set txs. txType tx = Transfer)"
proof (induction txs)
  case Nil
  show ?case by simp
next
  case (Cons t ts)
  show ?case
  proof (cases "txType t")
    case Transfer
    with Cons show ?thesis by (simp add: isSweepOrConsolidation_def)
  qed (simp_all add: isSweepOrConsolidation_def)
qed

lemma balance_update:
  "availableBalance (updatePendingTransactions a) =
     (if \<forall>tx\<in>set (pending (transactions (updatePendingTransactions a))). txType tx = Transfer
      then availableBalance a
             - sum_list (map knownAmount (pending (transactions (updatePendingTransactions a))))
      else 0)"
proof -
  define ps where "ps = filter (\<lambda>p. find (\<lambda>c. tx_hash c = txId p) (confirmed (transactions a)) = None)
                    (pending (transactions a))"
  have p: "pending (transactions (updatePendingTransactions a)) = ps"
    by (simp add: updatePendingTransactions_def Let_def ps_def)
  have b: "availableBalance (updatePendingTransactions a) =
      availableBalance a - (case find isSweepOrConsolidation ps of
                              Some _ \<Rightarrow> availableBalance a
                            | None \<Rightarrow> foldl addAmount 0 ps)"
    by (simp add: updatePendingTransactions_def Let_def ps_def split: option.splits)
  show ?thesis
  proof (cases "find isSweepOrConsolidation ps")
    case None
    then have "\<forall>tx\<in>set ps. txType tx = Transfer"
      by (simp only: find_sweep_None)
    then show ?thesis
      unfolding p b using None by (simp add: foldl_addAmount)
  next
    case (Some s)
    then have "\<not> (\<forall>tx\<in>set ps. txType tx = Transfer)"
      using find_sweep_None [of ps] by simp
    then show ?thesis
      unfolding p b using Some by auto
  qed
qed

lemma balance_update_sweep:
  assumes "\<not> (\<forall>tx\<in>set (pending (transactions (updatePendingTransactions a))). txType tx = Transfer)"
  shows "availableBalance (updatePendingTransactions a) = 0"
  by (rule trans [OF balance_update if_not_P [OF assms]])

lemma balance_update_transfers:
  assumes "\<forall>tx\<in>set (pending (transactions (updatePendingTransactions a))). txType tx = Transfer"
  shows "availableBalance (updatePendingTransactions a)
           = availableBalance a
               - sum_list (map knownAmount (pending (transactions (updatePendingTransactions a))))"
  by (rule trans [OF balance_update if_P [OF assms]])

text \<open>
  C3. \<^verbatim>\<open>updatePendingTransactions\<close> removes from the pending list exactly the pending
  transactions whose \<^verbatim>\<open>txId\<close> is the hash of some transaction of the confirmed list; the
  others are kept in their original order (the result is the filter of the old list), and
  the confirmed list is not touched.
\<close>

theorem updatePendingTransactions_removes_confirmed:
  "pending (transactions (updatePendingTransactions a)) =
     filter (\<lambda>p. \<not> (\<exists>c. c \<in> set (confirmed (transactions a)) \<and> tx_hash c = txId p))
            (pending (transactions a))
   \<and> confirmed (transactions (updatePendingTransactions a)) = confirmed (transactions a)"
proof -
  have "filter (\<lambda>p. txId p \<notin> tx_hash ` set (confirmed (transactions a))) (pending (transactions a))
      = filter (\<lambda>p. \<not> (\<exists>c. c \<in> set (confirmed (transactions a)) \<and> tx_hash c = txId p))
               (pending (transactions a))"
    by (rule filter_cong) (auto simp: image_iff)
  then show ?thesis
    by (simp only: pending_update confirmed_update)
qed

theorem updatePendingTransactions_removes_confirmed_witness:
  "pending (transactions (updatePendingTransactions
       (addressA [confirmedTx ''tx2'', confirmedTx ''tx9''] [tx_transfer30, tx_sweep, tx_unknown])))
     = [tx_transfer30, tx_unknown]"
proof -
  let ?a = "addressA [confirmedTx ''tx2'', confirmedTx ''tx9''] [tx_transfer30, tx_sweep, tx_unknown]"
  have c: "confirmed (transactions ?a) = [confirmedTx ''tx2'', confirmedTx ''tx9'']"
    and p: "pending (transactions ?a) = [tx_transfer30, tx_sweep, tx_unknown]"
    by (simp_all add: addressA_def new_Address_def)
  have e: "\<And>i. (\<exists>c. c \<in> set [confirmedTx ''tx2'', confirmedTx ''tx9''] \<and> tx_hash c = i)
              = (i = ''tx2'' \<or> i = ''tx9'')"
    by (auto simp: confirmedTx_def)
  have i: "txId tx_transfer30 = ''tx1''" "txId tx_sweep = ''tx2''" "txId tx_unknown = ''tx3''"
    by (simp_all add: tx_transfer30_def tx_sweep_def tx_unknown_def)
  show ?thesis
    using updatePendingTransactions_removes_confirmed [of ?a]
    by (simp only: c p e) (simp add: i)
qed

text \<open>
  C1, as stated, fails: with balance 100 and one pending transfer of 30, nothing confirmed,
  the first run leaves 70 and the second run 40.
\<close>

theorem updatePendingTransactions_twice_counterexample:
  "availableBalance (updatePendingTransactions (addressA [] [tx_transfer30])) = 70
   \<and> availableBalance (updatePendingTransactions (updatePendingTransactions (addressA [] [tx_transfer30]))) = 40"
  by (simp add: updatePendingTransactions_def Let_def addressA_def new_Address_def
        tx_transfer30_def isSweepOrConsolidation_def addAmount_def)

text \<open>
  C1, amended. Running \<^verbatim>\<open>updatePendingTransactions\<close> twice in a row gives the pending list
  (and leaves the confirmed list) of one run. The available balance of the second run is
  that of the first when a sweep or consolidation is still pending; otherwise the second
  run deducts the known amounts of the remaining pending transactions once more. The
  method is idempotent when the available balance is set back to its starting value before
  the second run.
\<close>

theorem updatePendingTransactions_twice:
  "pending (transactions (updatePendingTransactions (updatePendingTransactions a)))
     = pending (transactions (updatePendingTransactions a))
   \<and> confirmed (transactions (updatePendingTransactions (updatePendingTransactions a)))
     = confirmed (transactions a)
   \<and> availableBalance (updatePendingTransactions (updatePendingTransactions a))
     = (if \<forall>tx\<in>set (pending (transactions (updatePendingTransactions a))). txType tx = Transfer
        then availableBalance (updatePendingTransactions a)
               - sum_list (map knownAmount (pending (transactions (updatePendingTransactions a))))
        else availableBalance (updatePendingTransactions a))
   \<and> updatePendingTransactions ((updatePendingTransactions a)\<lparr>availableBalance := availableBalance a\<rparr>)
     = updatePendingTransactions a"
proof -
  let ?u = "updatePendingTransactions a"
  have p: "pending (transactions (updatePendingTransactions ?u)) = pending (transactions ?u)"
    by (simp add: pending_update confirmed_update)
  have c: "confirmed (transactions (updatePendingTransactions ?u)) = confirmed (transactions a)"
    by (simp add: confirmed_update)
  have b: "availableBalance (updatePendingTransactions ?u)
     = (if \<forall>tx\<in>set (pending (transactions ?u)). txType tx = Transfer
        then availableBalance ?u - sum_list (map knownAmount (pending (transactions ?u)))
        else availableBalance ?u)"
  proof (cases "\<forall>tx\<in>set (pending (transactions ?u)). txType tx = Transfer")
    case True
    then show ?thesis
      using balance_update [of ?u] by (simp add: p)
  next
    case False
    then have "\<not> (\<forall>tx\<in>set (pending (transactions (updatePendingTransactions ?u))). txType tx = Transfer)"
      unfolding p .
    then have "availableBalance (updatePendingTransactions ?u) = 0"
      by (rule balance_update_sweep)
    moreover have "availableBalance ?u = 0"
      using False by (rule balance_update_sweep)
    ultimately show ?thesis
      by (simp only: if_not_P [OF False])
  qed
  have r: "updatePendingTransactions (?u\<lparr>availableBalance := availableBalance a\<rparr>) = ?u"
    by (simp add: updatePendingTransactions_def Let_def)
  from p c b r show ?thesis by (simp only: simp_thms)
qed

theorem updatePendingTransactions_twice_witness:
  "pending (transactions (updatePendingTransactions (updatePendingTransactions
       (addressA [confirmedTx ''tx2''] [tx_transfer30, tx_sweep]))))
     = [tx_transfer30]
   \<and> availableBalance (updatePendingTransactions (updatePendingTransactions
       (addressA [confirmedTx ''tx2''] [tx_transfer30, tx_sweep])))
     = availableBalance (updatePendingTransactions (addressA [confirmedTx ''tx2''] [tx_transfer30, tx_sweep])) - 30
   \<and> availableBalance (updatePendingTransactions (updatePendingTransactions
       (addressA [] [tx_transfer30, tx_sweep])))
     = availableBalance (updatePendingTransactions (addressA [] [tx_transfer30, tx_sweep]))"
proof -
  have 1: "pending (transactions (updatePendingTransactions
              (addressA [confirmedTx ''tx2''] [tx_transfer30, tx_sweep]))) = [tx_transfer30]"
    by (simp add: pending_update addressA_def new_Address_def confirmedTx_def
          tx_transfer30_def tx_sweep_def)
  have 2: "pending (transactions (updatePendingTransactions
              (addressA [] [tx_transfer30, tx_sweep]))) = [tx_transfer30, tx_sweep]"
    by (simp add: pending_update addressA_def new_Address_def)
  have 3: "txType tx_transfer30 = Transfer" "txType tx_sweep = Sweep" "knownAmount tx_transfer30 = 30"
    by (simp_all add: tx_transfer30_def tx_sweep_def knownAmount_def)
  show ?thesis
    using updatePendingTransactions_twice [of "addressA [confirmedTx ''tx2''] [tx_transfer30, tx_sweep]"]
          updatePendingTransactions_twice [of "addressA [] [tx_transfer30, tx_sweep]"]
    by (simp add: 1 2 3)
qed

lemma pending_update_remaining:
  "pending (transactions (updatePendingTransactions a))
     = filter (\<lambda>p. \<not> (\<exists>c. c \<in> set (confirmed (transactions a)) \<and> tx_hash c = txId p))
              (pending (transactions a))"
proof -
  have "filter (\<lambda>p. txId p \<notin> tx_hash ` set (confirmed (transactions a))) (pending (transactions a))
      = filter (\<lambda>p. \<not> (\<exists>c. c \<in> set (confirmed (transactions a)) \<and> tx_hash c = txId p))
               (pending (transactions a))"
    by (rule filter_cong) (auto simp: image_iff)
  then show ?thesis
    by (simp only: pending_update)
qed

text \<open>
  C2. Let the remaining pending transactions be those of the address's pending list whose
  \<^verbatim>\<open>txId\<close> is the hash of no transaction of its confirmed list. When a sweep or a
  consolidation is among them, \<^verbatim>\<open>updatePendingTransactions\<close> sets the available balance to
  0, whatever the amounts; when all of them are transfers with a known amount, the
  available balance \<open>B\<close> becomes \<open>B - A\<close>, \<open>A\<close> the sum of their amounts.
\<close>

theorem updatePendingTransactions_balance_rule:
  "(let remaining =
          filter (\<lambda>p. \<not> (\<exists>c. c \<in> set (confirmed (transactions a)) \<and> tx_hash c = txId p))
                 (pending (transactions a))
    in ((\<exists>tx\<in>set remaining. txType tx = Sweep \<or> txType tx = Consolidation)
          \<longrightarrow> availableBalance (updatePendingTransactions a) = 0)
       \<and> ((\<forall>tx\<in>set remaining. txType tx = Transfer \<and> (\<exists>v. amount tx = Some v))
          \<longrightarrow> availableBalance (updatePendingTransactions a)
                = availableBalance a - sum_list (map knownAmount remaining)))"
proof -
  define remaining where
    "remaining = filter (\<lambda>p. \<not> (\<exists>c. c \<in> set (confirmed (transactions a)) \<and> tx_hash c = txId p))
                        (pending (transactions a))"
  have r: "pending (transactions (updatePendingTransactions a)) = remaining"
    unfolding remaining_def by (rule pending_update_remaining)
  have s: "availableBalance (updatePendingTransactions a) = 0"
    if "\<exists>tx\<in>set remaining. txType tx = Sweep \<or> txType tx = Consolidation"
  proof -
    from that obtain tx where tx: "tx \<in> set remaining" "txType tx = Sweep \<or> txType tx = Consolidation"
      by blast
    from tx(2) have "txType tx \<noteq> Transfer"
      by auto
    with tx(1) have "\<not> (\<forall>tx\<in>set (pending (transactions (updatePendingTransactions a))). txType tx = Transfer)"
      unfolding r by blast
    then show ?thesis
      by (rule balance_update_sweep)
  qed
  have t: "availableBalance (updatePendingTransactions a)
             = availableBalance a - sum_list (map knownAmount remaining)"
    if "\<forall>tx\<in>set remaining. txType tx = Transfer \<and> (\<exists>v. amount tx = Some v)"
  proof -
    from that have "\<forall>tx\<in>set (pending (transactions (updatePendingTransactions a))). txType tx = Transfer"
      unfolding r by blast
    then have "availableBalance (updatePendingTransactions a)
           = availableBalance a
               - sum_list (map knownAmount (pending (transactions (updatePendingTransactions a))))"
      by (rule balance_update_transfers)
    then show ?thesis
      unfolding r .
  qed
  from s t show ?thesis
    unfolding Let_def remaining_def [symmetric] by blast
qed

text \<open>
  Three addresses with balance 100. The transfer is confirmed and the sweep remains: 0.
  The sweep is confirmed and two transfers of 30 remain: 40. The sweep is confirmed and
  nothing remains: 100.
\<close>

theorem updatePendingTransactions_balance_rule_witness:
  "availableBalance (updatePendingTransactions (addressA [confirmedTx ''tx1''] [tx_transfer30, tx_sweep])) = 0
   \<and> availableBalance (updatePendingTransactions
        (addressA [confirmedTx ''tx2''] [tx_transfer30 \<lparr>txId := ''tx4''\<rparr>, tx_sweep, tx_transfer30])) = 40
   \<and> availableBalance (updatePendingTransactions (addressA [confirmedTx ''tx2''] [tx_sweep])) = 100"
proof -
  have e: "\<And>h i. (\<exists>c. c \<in> set [confirmedTx h] \<and> tx_hash c = i) = (i = h)"
    by (auto simp: confirmedTx_def)
  have f: "\<And>cs ps. confirmed (transactions (addressA cs ps)) = cs"
    "\<And>cs ps. pending (transactions (addressA cs ps)) = ps"
    "\<And>cs ps. availableBalance (addressA cs ps) = 100"
    by (simp_all add: addressA_def new_Address_def)
  have i: "txId tx_transfer30 = ''tx1''" "txId tx_sweep = ''tx2''"
    "txType tx_transfer30 = Transfer" "txType tx_sweep = Sweep"
    "knownAmount tx_transfer30 = 30" "amount tx_transfer30 = Some 30"
    "knownAmount (tx_transfer30 \<lparr>txId := ''tx4''\<rparr>) = 30"
    by (simp_all add: tx_transfer30_def tx_sweep_def knownAmount_def)
  have 1: "availableBalance (updatePendingTransactions (addressA [confirmedTx ''tx1''] [tx_transfer30, tx_sweep])) = 0"
    using updatePendingTransactions_balance_rule [of "addressA [confirmedTx ''tx1''] [tx_transfer30, tx_sweep]"]
    unfolding Let_def f e by (simp add: i)
  have 2: "availableBalance (updatePendingTransactions
        (addressA [confirmedTx ''tx2''] [tx_transfer30 \<lparr>txId := ''tx4''\<rparr>, tx_sweep, tx_transfer30])) = 40"
    using updatePendingTransactions_balance_rule
            [of "addressA [confirmedTx ''tx2''] [tx_transfer30 \<lparr>txId := ''tx4''\<rparr>, tx_sweep, tx_transfer30]"]
    unfolding Let_def f e by (simp add: i)
  have 3: "availableBalance (updatePendingTransactions (addressA [confirmedTx ''tx2''] [tx_sweep])) = 100"
    using updatePendingTransactions_balance_rule [of "addressA [confirmedTx ''tx2''] [tx_sweep]"]
    unfolding Let_def f e by (simp add: i)
  from 1 2 3 show ?thesis by simp
qed

text \<open>
  C9. When the pending transactions that remain after the matching are all transfers
  without an amount, \<^verbatim>\<open>updatePendingTransactions\<close> leaves the available balance as it was.
\<close>

theorem updatePendingTransactions_unknown_amounts:
  assumes "\<forall>tx\<in>set (pending (transactions (updatePendingTransactions a))).
             txType tx = Transfer \<and> amount tx = None"
  shows "availableBalance (updatePendingTransactions a) = availableBalance a"
proof -
  have "sum_list (map knownAmount (pending (transactions (updatePendingTransactions a)))) = 0"
    using assms by (simp add: sum_knownAmount_unknown)
  moreover have "\<forall>tx\<in>set (pending (transactions (updatePendingTransactions a))). txType tx = Transfer"
    using assms by blast
  ultimately show ?thesis
    using balance_update_transfers [of a] by simp
qed

theorem updatePendingTransactions_unknown_amounts_witness:
  "availableBalance (updatePendingTransactions (addressA [confirmedTx ''tx1''] [tx_unknown, tx_transfer30, tx_unknown]))
     = 100"
proof -
  have 1: "pending (transactions (updatePendingTransactions
              (addressA [confirmedTx ''tx1''] [tx_unknown, tx_transfer30, tx_unknown]))) = [tx_unknown, tx_unknown]"
    by (simp add: pending_update addressA_def new_Address_def confirmedTx_def
          tx_transfer30_def tx_unknown_def)
  have 2: "txType tx_unknown = Transfer" "amount tx_unknown = None"
    by (simp_all add: tx_unknown_def)
  have 3: "availableBalance (addressA [confirmedTx ''tx1''] [tx_unknown, tx_transfer30, tx_unknown]) = 100"
    by (simp add: addressA_def)
  show ?thesis
    using updatePendingTransactions_unknown_amounts
            [of "addressA [confirmedTx ''tx1''] [tx_unknown, tx_transfer30, tx_unknown]"]
    by (simp add: 1 2 3)
qed

section \<open>The state update of the registry\<close>

lemma stampAndSet_heap:
  "heap (stampAndSet net r w) = (heap w)(r := (heap w r)\<lparr>network := Some net\<rparr>)"
  by (simp add: stampAndSet_def Let_def)

lemma stampAndSet_state:
  "addressesState (stampAndSet net r w)
     = AList.update (constructMapKey net (hash (heap w r))) r (addressesState w)"
  by (simp add: stampAndSet_def Let_def)

lemma stampAndSet_rest:
  "nextRef (stampAndSet net r w) = nextRef w"
  "stateUpdates (stampAndSet net r w) = stateUpdates w"
  "isLoadingData (stampAndSet net r w) = isLoadingData w"
  "storage (stampAndSet net r w) = storage w"
  "events (stampAndSet net r w) = events w"
  by (simp_all add: stampAndSet_def Let_def)

lemma fold_stamp_rest:
  "nextRef (fold (stampAndSet net) rs w) = nextRef w"
  "stateUpdates (fold (stampAndSet net) rs w) = stateUpdates w"
  "isLoadingData (fold (stampAndSet net) rs w) = isLoadingData w"
  "storage (fold (stampAndSet net) rs w) = storage w"
  "events (fold (stampAndSet net) rs w) = events w"
  by (induction rs arbitrary: w; simp add: stampAndSet_rest)+

lemma fold_stamp_heap:
  "heap (fold (stampAndSet net) rs w) r
     = (if r \<in> set rs then (heap w r)\<lparr>network := Some net\<rparr> else heap w r)"
  by (induction rs arbitrary: w) (auto simp: stampAndSet_heap)

lemma fold_stamp_hash: "hash (heap (fold (stampAndSet net) rs w) r) = hash (heap w r)"
  by (simp add: fold_stamp_heap)

lemma stamp_hash: "hash (heap (stampAndSet net x w) r) = hash (heap w r)"
  by (simp add: stampAndSet_heap)

lemma fold_stamp_state_other:
  "k \<notin> (\<lambda>r. constructMapKey net (hash (heap w r))) ` set rs
   \<Longrightarrow> map_of (addressesState (fold (stampAndSet net) rs w)) k = map_of (addressesState w) k"
proof (induction rs arbitrary: w)
  case Nil
  show ?case by simp
next
  case (Cons x xs)
  from Cons.prems have k: "k \<noteq> constructMapKey net (hash (heap w x))"
    and ks: "k \<notin> (\<lambda>r. constructMapKey net (hash (heap (stampAndSet net x w) r))) ` set xs"
    by (auto simp: stamp_hash)
  have "map_of (addressesState (fold (stampAndSet net) xs (stampAndSet net x w))) k
      = map_of (addressesState (stampAndSet net x w)) k"
    using ks by (rule Cons.IH)
  also have "\<dots> = map_of (addressesState w) k"
    using k by (simp add: stampAndSet_state update_conv')
  finally show ?case by simp
qed

lemma update_filter_out:
  "k \<in> K \<Longrightarrow> filter (\<lambda>kv. fst kv \<notin> K) (AList.update k v al) = filter (\<lambda>kv. fst kv \<notin> K) al"
  by (induction al) auto

lemma fold_stamp_state_filter:
  "(\<lambda>r. constructMapKey net (hash (heap w r))) ` set rs \<subseteq> K
   \<Longrightarrow> filter (\<lambda>kv. fst kv \<notin> K) (addressesState (fold (stampAndSet net) rs w))
     = filter (\<lambda>kv. fst kv \<notin> K) (addressesState w)"
proof (induction rs arbitrary: w)
  case Nil
  show ?case by simp
next
  case (Cons x xs)
  have sub: "(\<lambda>r. constructMapKey net (hash (heap (stampAndSet net x w) r))) ` set xs \<subseteq> K"
    and kx: "constructMapKey net (hash (heap w x)) \<in> K"
    using Cons.prems by (auto simp: stamp_hash)
  have "filter (\<lambda>kv. fst kv \<notin> K) (addressesState (fold (stampAndSet net) xs (stampAndSet net x w)))
      = filter (\<lambda>kv. fst kv \<notin> K) (addressesState (stampAndSet net x w))"
    using sub by (rule Cons.IH)
  also have "\<dots> = filter (\<lambda>kv. fst kv \<notin> K) (addressesState w)"
    using kx by (simp add: stampAndSet_state update_filter_out)
  finally show ?case by simp
qed

lemma constructMapKey_inj_hash: "(constructMapKey net h = constructMapKey net h') = (h = h')"
  by (simp add: constructMapKey_def)


lemma fold_stamp_state_in:
  "r \<in> set rs \<Longrightarrow>
     \<exists>r'\<in>set rs. hash (heap w r') = hash (heap w r)
        \<and> map_of (addressesState (fold (stampAndSet net) rs w)) (constructMapKey net (hash (heap w r))) = Some r'"
proof (induction rs rule: rev_induct)
  case Nil
  then show ?case by simp
next
  case (snoc x xs)
  have st: "map_of (addressesState (stampAndSet net x (fold (stampAndSet net) xs w)))
      = (map_of (addressesState (fold (stampAndSet net) xs w)))(constructMapKey net (hash (heap w x)) \<mapsto> x)"
    by (simp add: stampAndSet_state fold_stamp_hash update_conv')
  show ?case
  proof (cases "hash (heap w x) = hash (heap w r)")
    case True
    then have "map_of (addressesState (fold (stampAndSet net) (xs @ [x]) w))
                 (constructMapKey net (hash (heap w r))) = Some x"
      by (simp add: st)
    with True show ?thesis
      by (intro bexI [of _ x]) simp_all
  next
    case False
    with snoc.prems have "r \<in> set xs" by auto
    then obtain r' where r': "r' \<in> set xs" "hash (heap w r') = hash (heap w r)"
      "map_of (addressesState (fold (stampAndSet net) xs w)) (constructMapKey net (hash (heap w r))) = Some r'"
      using snoc.IH by blast
    from False r'(3) have "map_of (addressesState (fold (stampAndSet net) (xs @ [x]) w))
                 (constructMapKey net (hash (heap w r))) = Some r'"
      by (simp add: st constructMapKey_inj_hash)
    with r'(1,2) show ?thesis
      by (intro bexI [of _ r']) simp_all
  qed
qed



lemma constructMapKey_collision:
  "constructMapKey ''x-main'' ''a'' = constructMapKey ''main'' ''a-x''"
  by (simp add: constructMapKey_def)


lemma updateAddressesState_Nil: "updateAddressesState net [] w = w"
  by (simp add: updateAddressesState_def)

lemma updateAddressesState_state:
  "addressesState (updateAddressesState net rs w) = addressesState (fold (stampAndSet net) rs w)"
  by (simp add: updateAddressesState_def)

lemma updateAddressesState_heap:
  "heap (updateAddressesState net rs w) r
     = (if r \<in> set rs then (heap w r)\<lparr>network := Some net\<rparr> else heap w r)"
  by (simp add: updateAddressesState_def fold_stamp_heap)

lemma updateAddressesState_rest:
  "nextRef (updateAddressesState net rs w) = nextRef w"
  "isLoadingData (updateAddressesState net rs w) = isLoadingData w"
  "storage (updateAddressesState net rs w) = storage w"
  "events (updateAddressesState net rs w) = events w"
  "stateUpdates (updateAddressesState net rs w) = (if rs = [] then stateUpdates w else Suc (stateUpdates w))"
  by (simp_all add: updateAddressesState_def fold_stamp_rest)

text \<open>
  C10. \<^verbatim>\<open>updateAddressesState\<close> called with an empty list returns at once: the state of the
  registry is what it was, and \<^verbatim>\<open>setAddressesState\<close> is not called. Called with addresses,
  it touches only the map entries under the keys of the given addresses' hashes on the
  current network: the lookup under any other key, and the sequence of the other entries,
  are unchanged; under each of these keys stands afterwards one of the given addresses with
  that hash. Every given address has its \<^verbatim>\<open>network\<close> field stamped with the current network
  name and is otherwise as before; no other object changes; nothing else of the registry
  changes but the count of state updates, which goes up by one.
\<close>

theorem updateAddressesState_frame:
  "updateAddressesState net [] w = w
   \<and> (let w' = updateAddressesState net rs w;
           K = (\<lambda>r. constructMapKey net (hash (heap w r))) ` set rs
       in (\<forall>k. k \<notin> K \<longrightarrow> map_of (addressesState w') k = map_of (addressesState w) k)
        \<and> filter (\<lambda>kv. fst kv \<notin> K) (addressesState w') = filter (\<lambda>kv. fst kv \<notin> K) (addressesState w)
        \<and> (\<forall>r\<in>set rs. \<exists>r'\<in>set rs. hash (heap w r') = hash (heap w r)
               \<and> map_of (addressesState w') (constructMapKey net (hash (heap w r))) = Some r')
        \<and> (\<forall>r. heap w' r = (if r \<in> set rs then (heap w r)\<lparr>network := Some net\<rparr> else heap w r))
        \<and> nextRef w' = nextRef w \<and> isLoadingData w' = isLoadingData w
        \<and> storage w' = storage w \<and> events w' = events w
        \<and> stateUpdates w' = (if rs = [] then stateUpdates w else Suc (stateUpdates w)))"
proof -
  let ?w' = "updateAddressesState net rs w"
  let ?K = "(\<lambda>r. constructMapKey net (hash (heap w r))) ` set rs"
  have 1: "\<forall>k. k \<notin> ?K \<longrightarrow> map_of (addressesState ?w') k = map_of (addressesState w) k"
    by (simp add: updateAddressesState_state fold_stamp_state_other)
  have 2: "filter (\<lambda>kv. fst kv \<notin> ?K) (addressesState ?w') = filter (\<lambda>kv. fst kv \<notin> ?K) (addressesState w)"
    unfolding updateAddressesState_state by (rule fold_stamp_state_filter) simp
  have 3: "\<forall>r\<in>set rs. \<exists>r'\<in>set rs. hash (heap w r') = hash (heap w r)
               \<and> map_of (addressesState ?w') (constructMapKey net (hash (heap w r))) = Some r'"
    unfolding updateAddressesState_state using fold_stamp_state_in by blast
  have 4: "\<forall>r. heap ?w' r = (if r \<in> set rs then (heap w r)\<lparr>network := Some net\<rparr> else heap w r)"
    by (simp add: updateAddressesState_heap)
  show ?thesis
    unfolding Let_def using 1 2 3 4
    by (simp only: updateAddressesState_Nil updateAddressesState_rest simp_thms)
qed

lemma worldT_state: "addressesState worldT = [(''B-testnet'', 1)]"
  by (simp add: worldT_def updateAddressesState_def stampAndSet_def Let_def worldAB_def
        emptyWorld_def addressB_def new_Address_def constructMapKey_def)

lemma worldT_heap: "heap worldT 0 = addressA [] [tx_transfer30]"
  by (simp add: worldT_def updateAddressesState_def stampAndSet_def Let_def worldAB_def)

lemma worldT_hash: "hash (heap worldT 0) = ''A''"
  by (simp add: worldT_heap addressA_def new_Address_def)

lemmas worldT_eval = worldT_state worldT_hash

theorem updateAddressesState_frame_witness:
  "map_of (addressesState (updateAddressesState ''mainnet'' [0] worldT)) ''B-testnet'' = Some 1
   \<and> map_of (addressesState (updateAddressesState ''mainnet'' [0] worldT)) ''A-mainnet'' = Some 0
   \<and> network (heap (updateAddressesState ''mainnet'' [0] worldT) 0) = Some ''mainnet''
   \<and> stateUpdates (updateAddressesState ''mainnet'' [0] worldT) = Suc (stateUpdates worldT)"
proof -
  have k: "''B-testnet'' \<notin> (\<lambda>r. constructMapKey ''mainnet'' (hash (heap worldT r))) ` set [0]"
    "constructMapKey ''mainnet'' (hash (heap worldT 0)) = ''A-mainnet''"
    by (simp_all add: worldT_eval constructMapKey_def)
  show ?thesis
    using updateAddressesState_frame [of "''mainnet''" worldT "[0]"] k
    by (simp add: Let_def worldT_eval)
qed






section \<open>Polling, fetching while offline, saving and initialization\<close>

lemma tick_idle: "toRefresh p = [] \<Longrightarrow> tick env (p, w) = (p\<lparr>cleared := True\<rparr>, w)"
  by (simp add: tick_def)

lemma polling_append: "polling env (xs @ ys) pw = polling env ys (polling env xs pw)"
proof (induction xs arbitrary: pw)
  case Nil
  show ?case by simp
next
  case (Cons x xs)
  then show ?case by (cases x) simp_all
qed

lemma polling_idle:
  assumes "addressesToRefresh (networkName env) w = []" and "toRefresh p = []"
  shows "snd (polling env es (p, w)) = w \<and> toRefresh (fst (polling env es (p, w))) = []"
  using assms(2)
proof (induction es arbitrary: p)
  case Nil
  then show ?case by simp
next
  case (Cons e es)
  show ?case
  proof (cases e)
    case Tick
    have "toRefresh (p\<lparr>cleared := True\<rparr>) = []"
      using Cons.prems by simp
    then show ?thesis
      using Cons.IH [of "p\<lparr>cleared := True\<rparr>"] Cons.prems Tick by (simp add: tick_idle)
  next
    case Render
    have "toRefresh (setupPolling env w) = []"
      using assms(1) by (simp add: setupPolling_def)
    then show ?thesis
      using Cons.IH [of "setupPolling env w"] Render by simp
  qed
qed

text \<open>
  C7. When no address of the current network has a pending transaction on it, as sender or
  as the destination of a pending transaction of another address of the registry, the
  polling effect set up on this state makes no fetch, whatever periods of the interval
  and renders follow: the world, with its list of API calls, stays as it is, the set of
  addresses to refresh stays empty, and a period of the interval clears the interval. (A
  new pending transaction in the state is a change of the world, on which the effect is
  set up again.)
\<close>

theorem polling_stops:
  assumes "set (addressesWithPendingSentTxs (networkName env) w)
             \<union> set (addressesWithPendingReceivingTxs (networkName env) w) = {}"
  shows "snd (polling env es (setupPolling env w, w)) = w
         \<and> apiCalls (snd (polling env es (setupPolling env w, w))) = apiCalls w
         \<and> toRefresh (fst (polling env es (setupPolling env w, w))) = []
         \<and> cleared (fst (polling env (es @ [Tick]) (setupPolling env w, w)))"
proof -
  from assms have r: "addressesToRefresh (networkName env) w = []"
    by (simp add: addressesToRefresh_def)
  then have s: "toRefresh (setupPolling env w) = []"
    by (simp add: setupPolling_def)
  have i: "snd (polling env es (setupPolling env w, w)) = w
           \<and> toRefresh (fst (polling env es (setupPolling env w, w))) = []"
    using r s by (rule polling_idle)
  obtain p' where p': "polling env es (setupPolling env w, w) = (p', w)" "toRefresh p' = []"
    using i by (cases "polling env es (setupPolling env w, w)") auto
  have "cleared (fst (polling env (es @ [Tick]) (setupPolling env w, w)))"
    by (simp add: polling_append p' tick_idle)
  with i show ?thesis by simp
qed

lemma receiving_empty:
  "addressesWithPendingSentTxs net w = [] \<Longrightarrow> addressesWithPendingReceivingTxs net w = []"
  by (simp add: addressesWithPendingReceivingTxs_def)

lemma worldB_state: "addressesState worldB = [(''B-mainnet'', 1)]"
  by (simp add: worldB_def updateAddressesState_def stampAndSet_def Let_def worldAB_def
        emptyWorld_def addressB_def new_Address_def constructMapKey_def)

lemma worldB_heap: "heap worldB (Suc 0) = addressB\<lparr>network := Some ''mainnet''\<rparr>"
  by (simp add: worldB_def updateAddressesState_def stampAndSet_def Let_def worldAB_def)

lemma worldB_idle:
  "addressesWithPendingSentTxs ''mainnet'' worldB = []"
  by (simp add: addressesWithPendingSentTxs_def addressesOfCurrentNetwork_def worldB_state worldB_heap
        addressB_def new_Address_def)

theorem polling_stops_witness:
  "snd (polling unlockedEnv [Tick, Render, Tick] (setupPolling unlockedEnv worldB, worldB)) = worldB
   \<and> cleared (fst (polling unlockedEnv [Tick, Render, Tick] (setupPolling unlockedEnv worldB, worldB)))"
proof -
  have n: "networkName unlockedEnv = ''mainnet''"
    by (simp add: unlockedEnv_def)
  have "set (addressesWithPendingSentTxs (networkName unlockedEnv) worldB)
             \<union> set (addressesWithPendingReceivingTxs (networkName unlockedEnv) worldB) = {}"
    by (simp add: n worldB_idle receiving_empty)
  from polling_stops [OF this, of "[Tick, Render, Tick]"] polling_stops [OF this, of "[Tick, Render]"]
  show ?thesis by (simp del: polling.simps)
qed

lemma worldA_state: "addressesState worldA = [(''A-mainnet'', 0)]"
  by (simp add: worldA_def updateAddressesState_def stampAndSet_def Let_def worldAB_def
        emptyWorld_def addressA_def new_Address_def constructMapKey_def)

lemma worldA_heap: "heap worldA 0 = (addressA [] [tx_transfer30])\<lparr>network := Some ''mainnet''\<rparr>"
  by (simp add: worldA_def updateAddressesState_def stampAndSet_def Let_def worldAB_def)

lemma worldA_events: "events worldA = []"
  by (simp add: worldA_def updateAddressesState_def stampAndSet_def Let_def worldAB_def emptyWorld_def)

lemma worldA_refresh: "addressesToRefresh ''mainnet'' worldA = [0]"
  by (simp add: addressesToRefresh_def addressesWithPendingReceivingTxs_def
        addressesWithPendingSentTxs_def addressesOfCurrentNetwork_def worldA_state worldA_heap
        addressA_def new_Address_def tx_transfer30_def)

lemma polling_fetches_example:
  "apiCalls (snd (tick unlockedEnv (setupPolling unlockedEnv worldA, worldA)))
     = [CallFetchAddressDetails ''A'', CallFetchAddressConfirmedTransactions ''A'']"
  by (simp add: tick_def setupPolling_def unlockedEnv_def worldA_refresh
        fetchAndStoreAddressesData_def usableClient_def idleClient_def refreshAddresses_def
        refreshAddress_def Let_def emit_def callOn_def keepReadonly_def worldA_heap worldA_events
        apiCalls_def updateAddressesState_def addressA_def new_Address_def
        updatePendingTransactions_def stampAndSet_def)


lemma usableClient_None:
  "client env = None \<or> networkStatus env = Offline \<Longrightarrow> usableClient env = None"
  by (auto simp: usableClient_def split: option.splits)

lemma apiCalls_emit_snackbar: "apiCalls (emit (SetSnackbarMessage m) w) = apiCalls w"
  by (simp add: apiCalls_def emit_def)

lemma apiCalls_updateAddressesState: "apiCalls (updateAddressesState net rs w) = apiCalls w"
  by (simp add: apiCalls_def updateAddressesState_rest)

lemma offlineAlerts_updateAddressesState: "offlineAlerts (updateAddressesState net rs w) = offlineAlerts w"
  by (simp add: offlineAlerts_def updateAddressesState_rest)

lemma offlineAlerts_display: "offlineAlerts (displayDataFetchingError w) = Suc (offlineAlerts w)"
  by (simp add: offlineAlerts_def displayDataFetchingError_def emit_def)

text \<open>
  C8, as stated, fails for \<^verbatim>\<open>fetchAddressTransactionsNextPage\<close>: while offline it returns
  without any notification.
\<close>

theorem fetch_nextPage_offline_counterexample:
  "networkStatus offlineEnv = Offline
   \<and> events (worldOf (fetchAddressTransactionsNextPage offlineEnv 0 worldAB)) = []"
  by (simp add: fetchAddressTransactionsNextPage_def usableClient_def offlineEnv_def unlockedEnv_def
        worldAB_def emptyWorld_def)

text \<open>
  C8, amended. When the client is unset or the network status is offline, each of
  \<^verbatim>\<open>fetchAndStoreAddressesData\<close>, \<^verbatim>\<open>fetchPendingTxs\<close> and \<^verbatim>\<open>fetchAddressTransactionsNextPage\<close>
  returns without a call of the remote API. \<^verbatim>\<open>fetchPendingTxs\<close> does nothing but show the
  offline notification, once; \<^verbatim>\<open>fetchAndStoreAddressesData\<close> shows it once and puts the given
  addresses into the state of the registry; \<^verbatim>\<open>fetchAddressTransactionsNextPage\<close> does nothing
  at all and shows no notification.
\<close>

theorem fetch_offline_short_circuit:
  assumes "client env = None \<or> networkStatus env = Offline"
  shows "fetchPendingTxs env addresses w = displayDataFetchingError w
         \<and> fetchAndStoreAddressesData env addresses checking w
             = updateAddressesState (networkName env) addresses (displayDataFetchingError w)
         \<and> fetchAddressTransactionsNextPage env address w = Resolved w
         \<and> apiCalls (fetchPendingTxs env addresses w) = apiCalls w
         \<and> apiCalls (fetchAndStoreAddressesData env addresses checking w) = apiCalls w
         \<and> apiCalls (worldOf (fetchAddressTransactionsNextPage env address w)) = apiCalls w
         \<and> offlineAlerts (fetchPendingTxs env addresses w) = Suc (offlineAlerts w)
         \<and> offlineAlerts (fetchAndStoreAddressesData env addresses checking w) = Suc (offlineAlerts w)
         \<and> offlineAlerts (worldOf (fetchAddressTransactionsNextPage env address w)) = offlineAlerts w"
proof -
  from assms have u: "usableClient env = None"
    by (rule usableClient_None)
  have p: "fetchPendingTxs env addresses w = displayDataFetchingError w"
    by (simp add: fetchPendingTxs_def u)
  have f: "fetchAndStoreAddressesData env addresses checking w
             = updateAddressesState (networkName env) addresses (displayDataFetchingError w)"
    by (simp add: fetchAndStoreAddressesData_def u)
  have n: "fetchAddressTransactionsNextPage env address w = Resolved w"
    by (simp add: fetchAddressTransactionsNextPage_def u)
  have a: "apiCalls (displayDataFetchingError w) = apiCalls w"
    by (simp add: displayDataFetchingError_def apiCalls_emit_snackbar)
  show ?thesis
    unfolding p f n
    by (simp add: a apiCalls_updateAddressesState offlineAlerts_updateAddressesState offlineAlerts_display)
qed

theorem fetch_offline_short_circuit_witness:
  "events (fetchPendingTxs offlineEnv [0] worldAB) = [SetSnackbarMessage CouldNotFetchOffline]
   \<and> events (fetchAndStoreAddressesData offlineEnv [0] False worldAB) = [SetSnackbarMessage CouldNotFetchOffline]
   \<and> getAddress ''mainnet'' (fetchAndStoreAddressesData offlineEnv [0] False worldAB) ''A'' = Some 0
   \<and> fetchAddressTransactionsNextPage offlineEnv 0 worldAB = Resolved worldAB"
proof -
  have o: "client offlineEnv = None \<or> networkStatus offlineEnv = Offline"
    by (simp add: offlineEnv_def)
  have n: "networkName offlineEnv = ''mainnet''"
    by (simp add: offlineEnv_def unlockedEnv_def)
  have e: "events (displayDataFetchingError worldAB) = [SetSnackbarMessage CouldNotFetchOffline]"
    by (simp add: displayDataFetchingError_def emit_def worldAB_def emptyWorld_def)
  have g: "getAddress ''mainnet'' (updateAddressesState ''mainnet'' [0] (displayDataFetchingError worldAB)) ''A'' = Some 0"
    by (simp add: getAddress_def updateAddressesState_def stampAndSet_def Let_def constructMapKey_def
          displayDataFetchingError_def emit_def worldAB_def emptyWorld_def addressA_def new_Address_def)
  show ?thesis
    using fetch_offline_short_circuit [OF o, of "[0]" worldAB False 0]
    by (simp add: n e g updateAddressesState_rest)
qed

lemma fetchPendingTxs_online_example:
  "apiCalls (fetchPendingTxs unlockedEnv [0] worldAB) = [CallGetAddressUnconfirmedTransactions ''A'']"
  by (simp add: fetchPendingTxs_def usableClient_def unlockedEnv_def idleClient_def
        fetchPendingTxsOf_def Let_def emit_def apiCalls_def worldAB_def emptyWorld_def
        addressA_def new_Address_def)

lemma saveNewAddress_throws_iff:
  "(\<exists>e. saveNewAddress env newAddress mnemonicArg w = Inl e) = (\<not> truthy mnemonicArg)"
  by (simp add: saveNewAddress_def js_or_def Let_def)

text \<open>
  C4. \<^verbatim>\<open>saveNewAddress\<close> throws exactly when its own argument \<^verbatim>\<open>mnemonic\<close> is absent or
  empty (\<open>saveNewAddress_throws_iff\<close>), whatever the secret of the active wallet is; its
  sibling \<^verbatim>\<open>updateAddressSettings\<close> reads the wallet's secret
  (\<open>updateAddressSettings_throws_iff\<close>). With the wallet unlocked and no argument, as
  \<^verbatim>\<open>generateOneAddressPerGroup\<close> calls it (\<open>generateOneAddressPerGroup_throws\<close>),
  \<^verbatim>\<open>saveNewAddress\<close> throws.
\<close>

theorem saveNewAddress_unlocked_wallet_throws:
  "truthy (mnemonic unlockedEnv)
   \<and> saveNewAddress unlockedEnv 0 None worldAB
       = Inl (Error ''Could not save new address, mnemonic not found'')"
  by (simp add: saveNewAddress_def js_or_def truthy_def Let_def unlockedEnv_def)

lemma saveNewAddress_locked_wallet_saves:
  "\<not> truthy (mnemonic (unlockedEnv\<lparr>mnemonic := None\<rparr>))
   \<and> (\<exists>w'. saveNewAddress (unlockedEnv\<lparr>mnemonic := None\<rparr>) 0 (Some ''abandon'') worldAB
         = Inr (w', [FetchAndStoreAddressesData [0] False, FetchPendingTxs [0]]))"
  by (simp add: saveNewAddress_def js_or_def truthy_def Let_def unlockedEnv_def)

lemma saveGenerated_throws:
  "dat \<noteq> [] \<Longrightarrow>
     fst (saveGenerated env hasLabel labelPrefix labelColor dat w)
       = Some (Error ''Could not save new address, mnemonic not found'')"
  by (cases dat)
     (auto simp: saveNewAddress_def js_or_def truthy_def Let_def alloc_def split: prod.splits)

text \<open>
  \<^verbatim>\<open>generateOneAddressPerGroup\<close> on an unlocked wallet: as soon as the worker answers with
  an address, saving it throws.
\<close>

lemma generateOneAddressPerGroup_throws:
  assumes "mnemonic env = Some m" "m \<noteq> []"
    and "deriveAddressesInGroups env m
           (filter (\<lambda>g. g \<notin> set skipGroups) [0 ..< TOTAL_NUMBER_OF_GROUPS env])
           (map (\<lambda>a. index (heap w a)) (addressesOfCurrentNetwork (networkName env) w)) \<noteq> []"
  shows "fst (generateOneAddressPerGroup env labelPrefix labelColor skipGroups w)
           = Some (Error ''Could not save new address, mnemonic not found'')"
proof -
  let ?dat = "deriveAddressesInGroups env m
           (filter (\<lambda>g. g \<notin> set skipGroups) [0 ..< TOTAL_NUMBER_OF_GROUPS env])
           (map (\<lambda>a. index (heap w a)) (addressesOfCurrentNetwork (networkName env) w))"
  let ?groups = "filter (\<lambda>g. g \<notin> set skipGroups) [0 ..< TOTAL_NUMBER_OF_GROUPS env]"
  let ?skip = "map (\<lambda>a. index (heap w a)) (addressesOfCurrentNetwork (networkName env) w)"
  let ?w2 = "emit (GroupsWorkerPostMessage m ?groups ?skip) (emit (Dispatch AddressGenerationStarted) w)"
  let ?run = "saveGenerated env (truthy labelPrefix \<and> truthy labelColor)
                (case labelPrefix of None \<Rightarrow> [] | Some p \<Rightarrow> p)
                (case labelColor of None \<Rightarrow> [] | Some c \<Rightarrow> c) ?dat ?w2"
  obtain e w3 started where r: "?run = (e, w3, started)"
    by (cases ?run) auto
  have "fst ?run = Some (Error ''Could not save new address, mnemonic not found'')"
    using assms(3) by (rule saveGenerated_throws)
  with r have e: "e = Some (Error ''Could not save new address, mnemonic not found'')"
    by simp
  have "generateOneAddressPerGroup env labelPrefix labelColor skipGroups w
      = (case ?run of
           (Some e, w3, started) \<Rightarrow> (Some e, w3, started)
         | (None, w3, started) \<Rightarrow> (None, emit (Dispatch AddressesGenerated) w3, started))"
    using assms(1,2) by (simp add: generateOneAddressPerGroup_def Let_def)
  then show ?thesis
    by (simp add: r e)
qed

lemma updateAddressSettings_throws_iff:
  "(\<exists>e. updateAddressSettings env address s w = Inl e) = (\<not> truthy (mnemonic env))"
  by (simp add: updateAddressSettings_def Let_def)


lemma emit_rest:
  "storage (emit e w) = storage w" "nextRef (emit e w) = nextRef w"
  "heap (emit e w) = heap w" "addressesState (emit e w) = addressesState w"
  by (simp_all add: emit_def)

lemma refreshAddress_rest:
  "storage (snd (snd (refreshAddress c chk r st))) = storage (snd (snd st))
   \<and> nextRef (snd (snd (refreshAddress c chk r st))) = nextRef (snd (snd st))"
  by (cases st) (simp add: refreshAddress_def Let_def emit_rest split: sum.splits)

lemma fold_refreshAddress_rest:
  "storage (snd (snd (fold (refreshAddress c chk) rs st))) = storage (snd (snd st))
   \<and> nextRef (snd (snd (fold (refreshAddress c chk) rs st))) = nextRef (snd (snd st))"
  by (induction rs arbitrary: st) (simp_all add: refreshAddress_rest)

lemma refreshAddresses_rest:
  "storage (refreshAddresses c net rs chk w) = storage w
   \<and> nextRef (refreshAddresses c net rs chk w) = nextRef w"
proof -
  let ?rs = "if length rs > 0 then rs else addressesOfCurrentNetwork net w"
  obtain s u w2 where f: "fold (refreshAddress c chk) ?rs (\<not> chk, [], w\<lparr>isLoadingData := True\<rparr>) = (s, u, w2)"
    by (cases "fold (refreshAddress c chk) ?rs (\<not> chk, [], w\<lparr>isLoadingData := True\<rparr>)") auto
  have "storage (snd (snd (s, u, w2))) = storage (snd (snd (\<not> chk, [] :: ref list, w\<lparr>isLoadingData := True\<rparr>)))
      \<and> nextRef (snd (snd (s, u, w2))) = nextRef (snd (snd (\<not> chk, [] :: ref list, w\<lparr>isLoadingData := True\<rparr>)))"
    unfolding f [symmetric] by (rule fold_refreshAddress_rest)
  then have "storage w2 = storage w \<and> nextRef w2 = nextRef w"
    by simp
  moreover have "refreshAddresses c net rs chk w
      = (if s then updateAddressesState net u w2 else w2)\<lparr>isLoadingData := False\<rparr>"
    unfolding refreshAddresses_def Let_def f by simp
  ultimately show ?thesis
    by (simp add: updateAddressesState_rest)
qed

lemma fetchAndStoreAddressesData_legacy_rest:
  "storage (fetchAndStoreAddressesData_legacy env rs chk w) = storage w
   \<and> nextRef (fetchAndStoreAddressesData_legacy env rs chk w) = nextRef w"
  by (simp add: fetchAndStoreAddressesData_legacy_def refreshAddresses_rest split: option.splits)

lemma store_fresh:
  "storage w name = [] \<Longrightarrow>
     storage (AddressMetadataStorage_store name i s w) name = [AddressSettings.extend s \<lparr> metaIndex = i \<rparr>]"
  by (simp add: AddressMetadataStorage_store_def Let_def emit_rest)

lemma store_nextRef: "nextRef (AddressMetadataStorage_store name i s w) = nextRef w"
  by (simp add: AddressMetadataStorage_store_def Let_def emit_rest)

lemma saveNewAddress_legacy_rest:
  "storage (saveNewAddress_legacy env r w)
     = storage (AddressMetadataStorage_store (currentAccountName env) (index (heap w r)) (settings (heap w r)) w)"
  "nextRef (saveNewAddress_legacy env r w) = nextRef w"
  by (simp_all add: saveNewAddress_legacy_def fetchAndStoreAddressesData_legacy_rest store_nextRef)

text \<open>
  C5, as stated, fails for the provider (first in the file): with the wallet unlocked and
  no metadata stored, \<^verbatim>\<open>initializeCurrentNetworkAddresses\<close> returns and has done nothing.
\<close>

theorem initialize_no_metadata_counterexample:
  "truthy (mnemonic unlockedEnv)
   \<and> AddressMetadataStorage_load (activeWalletName unlockedEnv) emptyWorld = []
   \<and> initializeCurrentNetworkAddresses unlockedEnv emptyWorld = Inr emptyWorld
   \<and> addressesState emptyWorld = [] \<and> nextRef emptyWorld = 0"
  by (simp add: initializeCurrentNetworkAddresses_def AddressMetadataStorage_load_def truthy_def
        unlockedEnv_def emptyWorld_def)

lemma defaultAddress_main:
  "index (defaultAddress lenv wl) = 0" "isMain (settings (defaultAddress lenv wl))"
  by (simp_all add: defaultAddress_def new_Address_def)

lemma initialize_legacy_default:
  assumes "currentAccountName lenv \<noteq> []" "wallet lenv = Some wl"
    and "AddressMetadataStorage_load (currentAccountName lenv) w = []"
  shows "initializeCurrentNetworkAddresses_legacy lenv w
          = saveNewAddress_legacy lenv (nextRef w) (snd (alloc (defaultAddress lenv wl) w))"
    and "AddressMetadataStorage_load (currentAccountName lenv)
             (initializeCurrentNetworkAddresses_legacy lenv w)
            = [\<lparr> isMain = True, label = None, color = None, metaIndex = 0 \<rparr>]"
    and "nextRef (initializeCurrentNetworkAddresses_legacy lenv w) = Suc (nextRef w)"
proof -
  let ?w1 = "snd (alloc (defaultAddress lenv wl) w)"
  show e: "initializeCurrentNetworkAddresses_legacy lenv w
          = saveNewAddress_legacy lenv (nextRef w) ?w1"
    using assms by (simp add: initializeCurrentNetworkAddresses_legacy_def alloc_def Let_def)
  have s: "storage ?w1 (currentAccountName lenv) = []"
    using assms by (simp add: alloc_def AddressMetadataStorage_load_def)
  have a: "heap ?w1 (nextRef w) = defaultAddress lenv wl"
    by (simp add: alloc_def)
  have d: "AddressSettings.extend (settings (defaultAddress lenv wl)) \<lparr> metaIndex = index (defaultAddress lenv wl) \<rparr>
      = \<lparr> isMain = True, label = None, color = None, metaIndex = 0 \<rparr>"
    by (simp add: defaultAddress_def new_Address_def AddressSettings.defs)
  have "storage (saveNewAddress_legacy lenv (nextRef w) ?w1) (currentAccountName lenv)
      = [AddressSettings.extend (settings (defaultAddress lenv wl)) \<lparr> metaIndex = index (defaultAddress lenv wl) \<rparr>]"
    unfolding saveNewAddress_legacy_rest a using s by (rule store_fresh)
  then show "AddressMetadataStorage_load (currentAccountName lenv)
             (initializeCurrentNetworkAddresses_legacy lenv w)
            = [\<lparr> isMain = True, label = None, color = None, metaIndex = 0 \<rparr>]"
    unfolding e AddressMetadataStorage_load_def d .
  show "nextRef (initializeCurrentNetworkAddresses_legacy lenv w) = Suc (nextRef w)"
    unfolding e saveNewAddress_legacy_rest by (simp add: alloc_def)
qed

lemma initializationEffect_called:
  assumes "wallet lenv = Some wl"
    and "previousClient refs \<noteq> legacyClient lenv \<or> previousWallet refs \<noteq> wallet lenv"
  shows "initializationEffect_legacy lenv (refs, w)
           = (refs\<lparr> previousClient := legacyClient lenv, previousWallet := wallet lenv \<rparr>,
              initializeCurrentNetworkAddresses_legacy lenv w)"
  using assms by (auto simp: initializationEffect_legacy_def)

lemma initializationEffect_skipped:
  assumes "wallet lenv = None \<or> (previousClient refs = legacyClient lenv \<and> previousWallet refs = wallet lenv)"
  shows "initializationEffect_legacy lenv (refs, w) = (refs, w)"
  using assms by (auto simp: initializationEffect_legacy_def)

lemma initializationEffect_once:
  "initializationEffect_legacy lenv (initializationEffect_legacy lenv (refs, w))
     = initializationEffect_legacy lenv (refs, w)"
  by (simp add: initializationEffect_legacy_def)

lemma cleanStateEffect_rest:
  "storage (snd (cleanStateEffect_legacy lenv (refs, w))) = storage w"
  "nextRef (snd (cleanStateEffect_legacy lenv (refs, w))) = nextRef w"
  by (simp_all add: cleanStateEffect_legacy_def)

lemma cleanStateEffect_refs:
  assumes "refs = initialRefs_legacy lenv \<or> previousWallet refs \<noteq> wallet lenv"
  shows "previousClient (fst (cleanStateEffect_legacy lenv (refs, w))) = None"
    and "previousWallet (fst (cleanStateEffect_legacy lenv (refs, w))) = wallet lenv"
  using assms by (auto simp: cleanStateEffect_legacy_def initialRefs_legacy_def)

lemma commit_legacy_no_client:
  assumes "legacyClient lenv = None"
    and "refs = initialRefs_legacy lenv \<or> previousWallet refs \<noteq> wallet lenv"
  shows "commit_legacy lenv (refs, w) = cleanStateEffect_legacy lenv (refs, w)"
proof -
  obtain refs' w' where c: "cleanStateEffect_legacy lenv (refs, w) = (refs', w')"
    by (cases "cleanStateEffect_legacy lenv (refs, w)") auto
  have "previousClient refs' = None" "previousWallet refs' = wallet lenv"
    using cleanStateEffect_refs [OF assms(2), of w] by (simp_all add: c)
  then have "initializationEffect_legacy lenv (refs', w') = (refs', w')"
    using assms(1) by (intro initializationEffect_skipped) simp
  then show ?thesis
    by (simp add: commit_legacy_def c)
qed

lemma commit_legacy_with_client:
  assumes "legacyClient lenv = Some c" "wallet lenv = Some wl" "currentAccountName lenv \<noteq> []"
    and "AddressMetadataStorage_load (currentAccountName lenv) w = []"
    and "refs = initialRefs_legacy lenv \<or> previousWallet refs \<noteq> wallet lenv"
  shows "AddressMetadataStorage_load (currentAccountName lenv) (snd (commit_legacy lenv (refs, w)))
           = [\<lparr> isMain = True, label = None, color = None, metaIndex = 0 \<rparr>]"
    and "nextRef (snd (commit_legacy lenv (refs, w))) = Suc (nextRef w)"
proof -
  obtain refs' w' where c: "cleanStateEffect_legacy lenv (refs, w) = (refs', w')"
    by (cases "cleanStateEffect_legacy lenv (refs, w)") auto
  have r: "previousClient refs' = None"
    using cleanStateEffect_refs(1) [OF assms(5), of w] by (simp add: c)
  have w': "storage w' = storage w" "nextRef w' = nextRef w"
    using cleanStateEffect_rest [of lenv refs w] by (simp_all add: c)
  have "previousClient refs' \<noteq> legacyClient lenv \<or> previousWallet refs' \<noteq> wallet lenv"
    using r assms(1) by simp
  with assms(2) have e: "snd (commit_legacy lenv (refs, w)) = initializeCurrentNetworkAddresses_legacy lenv w'"
    by (simp add: commit_legacy_def c initializationEffect_called)
  have l: "AddressMetadataStorage_load (currentAccountName lenv) w' = []"
    using assms(4) by (simp add: AddressMetadataStorage_load_def w')
  show "AddressMetadataStorage_load (currentAccountName lenv) (snd (commit_legacy lenv (refs, w)))
           = [\<lparr> isMain = True, label = None, color = None, metaIndex = 0 \<rparr>]"
    unfolding e using assms(3) assms(2) l by (rule initialize_legacy_default(2))
  show "nextRef (snd (commit_legacy lenv (refs, w))) = Suc (nextRef w)"
    unfolding e using initialize_legacy_default(3) [OF assms(3) assms(2) l] by (simp add: w')
qed

lemma initialize_current_nothing:
  assumes "truthy (mnemonic env)"
    and "isPassphraseUsed env \<or> AddressMetadataStorage_load (activeWalletName env) w = []"
  shows "initializeCurrentNetworkAddresses env w = Inr w"
proof -
  from assms(1) obtain m where m: "mnemonic env = Some m" "m \<noteq> []"
    by (auto simp: truthy_def split: option.splits)
  from assms(2) m show ?thesis
    by (auto simp: initializeCurrentNetworkAddresses_def)
qed

text \<open>
  C5, amended. The older provider (second in the file) calls
  \<^verbatim>\<open>initializeCurrentNetworkAddresses\<close> from its effect only when a wallet is set and the
  client or the wallet is not the one recorded in its refs; when the component mounts and
  after a change of wallet that is the case exactly when a client is set. When it is
  called with an account name and no metadata stored for the account, it makes one address
  object, with index 0 and \<^verbatim>\<open>isMain\<close> true, and saves it with \<^verbatim>\<open>saveNewAddress\<close>: afterwards
  the store holds for the account exactly the entry of index 0 with \<^verbatim>\<open>isMain\<close> true; the
  effect run again on the same client and wallet does nothing more. With no client, at
  mount or after a change of wallet, nothing is derived or stored. The provider (first in
  the file), with the wallet unlocked, derives and saves nothing when no metadata is stored
  or the wallet is derived from a passphrase.
\<close>

theorem initialize_no_metadata:
  "(wallet lenv = Some wl \<and> currentAccountName lenv \<noteq> []
      \<and> AddressMetadataStorage_load (currentAccountName lenv) w = []
      \<and> (previousClient refs \<noteq> legacyClient lenv \<or> previousWallet refs \<noteq> wallet lenv)
    \<longrightarrow> initializationEffect_legacy lenv (refs, w)
          = (refs\<lparr> previousClient := legacyClient lenv, previousWallet := wallet lenv \<rparr>,
             saveNewAddress_legacy lenv (nextRef w) (snd (alloc (defaultAddress lenv wl) w)))
        \<and> index (defaultAddress lenv wl) = 0
        \<and> isMain (settings (defaultAddress lenv wl))
        \<and> AddressMetadataStorage_load (currentAccountName lenv)
             (snd (initializationEffect_legacy lenv (refs, w)))
            = [\<lparr> isMain = True, label = None, color = None, metaIndex = 0 \<rparr>]
        \<and> nextRef (snd (initializationEffect_legacy lenv (refs, w))) = Suc (nextRef w))
   \<and> (wallet lenv = None
        \<or> (previousClient refs = legacyClient lenv \<and> previousWallet refs = wallet lenv)
      \<longrightarrow> initializationEffect_legacy lenv (refs, w) = (refs, w))
   \<and> initializationEffect_legacy lenv (initializationEffect_legacy lenv (refs, w))
        = initializationEffect_legacy lenv (refs, w)
   \<and> (legacyClient lenv = Some c \<and> wallet lenv = Some wl \<and> currentAccountName lenv \<noteq> []
        \<and> AddressMetadataStorage_load (currentAccountName lenv) w = []
        \<and> (refs = initialRefs_legacy lenv \<or> previousWallet refs \<noteq> wallet lenv)
      \<longrightarrow> AddressMetadataStorage_load (currentAccountName lenv) (snd (commit_legacy lenv (refs, w)))
            = [\<lparr> isMain = True, label = None, color = None, metaIndex = 0 \<rparr>]
          \<and> nextRef (snd (commit_legacy lenv (refs, w))) = Suc (nextRef w))
   \<and> (legacyClient lenv = None
        \<and> (refs = initialRefs_legacy lenv \<or> previousWallet refs \<noteq> wallet lenv)
      \<longrightarrow> commit_legacy lenv (refs, w) = cleanStateEffect_legacy lenv (refs, w)
          \<and> storage (snd (commit_legacy lenv (refs, w))) = storage w
          \<and> nextRef (snd (commit_legacy lenv (refs, w))) = nextRef w)
   \<and> (truthy (mnemonic env)
        \<and> (isPassphraseUsed env \<or> AddressMetadataStorage_load (activeWalletName env) w = [])
      \<longrightarrow> initializeCurrentNetworkAddresses env w = Inr w)"
proof (intro conjI impI)
  assume h: "wallet lenv = Some wl \<and> currentAccountName lenv \<noteq> []
      \<and> AddressMetadataStorage_load (currentAccountName lenv) w = []
      \<and> (previousClient refs \<noteq> legacyClient lenv \<or> previousWallet refs \<noteq> wallet lenv)"
  then have n: "currentAccountName lenv \<noteq> []" and wl: "wallet lenv = Some wl"
    and l: "AddressMetadataStorage_load (currentAccountName lenv) w = []"
    and g: "previousClient refs \<noteq> legacyClient lenv \<or> previousWallet refs \<noteq> wallet lenv"
    by blast+
  have e: "initializationEffect_legacy lenv (refs, w)
           = (refs\<lparr> previousClient := legacyClient lenv, previousWallet := wallet lenv \<rparr>,
              initializeCurrentNetworkAddresses_legacy lenv w)"
    using wl g by (rule initializationEffect_called)
  show "initializationEffect_legacy lenv (refs, w)
          = (refs\<lparr> previousClient := legacyClient lenv, previousWallet := wallet lenv \<rparr>,
             saveNewAddress_legacy lenv (nextRef w) (snd (alloc (defaultAddress lenv wl) w)))"
    unfolding e using initialize_legacy_default(1) [OF n wl l] by simp
  show "index (defaultAddress lenv wl) = 0"
    by (rule defaultAddress_main)
  show "isMain (settings (defaultAddress lenv wl))"
    by (rule defaultAddress_main)
  show "AddressMetadataStorage_load (currentAccountName lenv)
             (snd (initializationEffect_legacy lenv (refs, w)))
            = [\<lparr> isMain = True, label = None, color = None, metaIndex = 0 \<rparr>]"
    unfolding e using initialize_legacy_default(2) [OF n wl l] by simp
  show "nextRef (snd (initializationEffect_legacy lenv (refs, w))) = Suc (nextRef w)"
    unfolding e using initialize_legacy_default(3) [OF n wl l] by simp
next
  assume "wallet lenv = None
        \<or> (previousClient refs = legacyClient lenv \<and> previousWallet refs = wallet lenv)"
  then show "initializationEffect_legacy lenv (refs, w) = (refs, w)"
    by (rule initializationEffect_skipped)
next
  show "initializationEffect_legacy lenv (initializationEffect_legacy lenv (refs, w))
        = initializationEffect_legacy lenv (refs, w)"
    by (rule initializationEffect_once)
next
  assume h: "legacyClient lenv = Some c \<and> wallet lenv = Some wl \<and> currentAccountName lenv \<noteq> []
        \<and> AddressMetadataStorage_load (currentAccountName lenv) w = []
        \<and> (refs = initialRefs_legacy lenv \<or> previousWallet refs \<noteq> wallet lenv)"
  then have f: "legacyClient lenv = Some c" "wallet lenv = Some wl" "currentAccountName lenv \<noteq> []"
    "AddressMetadataStorage_load (currentAccountName lenv) w = []"
    "refs = initialRefs_legacy lenv \<or> previousWallet refs \<noteq> wallet lenv"
    by blast+
  show "AddressMetadataStorage_load (currentAccountName lenv) (snd (commit_legacy lenv (refs, w)))
            = [\<lparr> isMain = True, label = None, color = None, metaIndex = 0 \<rparr>]"
    using f by (rule commit_legacy_with_client(1))
  show "nextRef (snd (commit_legacy lenv (refs, w))) = Suc (nextRef w)"
    using f by (rule commit_legacy_with_client(2))
next
  assume h: "legacyClient lenv = None
        \<and> (refs = initialRefs_legacy lenv \<or> previousWallet refs \<noteq> wallet lenv)"
  then have f: "legacyClient lenv = None"
    "refs = initialRefs_legacy lenv \<or> previousWallet refs \<noteq> wallet lenv"
    by blast+
  show e: "commit_legacy lenv (refs, w) = cleanStateEffect_legacy lenv (refs, w)"
    using f by (rule commit_legacy_no_client)
  show "storage (snd (commit_legacy lenv (refs, w))) = storage w"
    unfolding e by (rule cleanStateEffect_rest)
  show "nextRef (snd (commit_legacy lenv (refs, w))) = nextRef w"
    unfolding e by (rule cleanStateEffect_rest)
next
  assume "truthy (mnemonic env)
        \<and> (isPassphraseUsed env \<or> AddressMetadataStorage_load (activeWalletName env) w = [])"
  then have f: "truthy (mnemonic env)"
    "isPassphraseUsed env \<or> AddressMetadataStorage_load (activeWalletName env) w = []"
    by blast+
  show "initializeCurrentNetworkAddresses env w = Inr w"
    using f by (rule initialize_current_nothing)
qed

text \<open>
  The older provider mounts with a wallet, an account name and an empty store. With a
  client the default entry is stored and one address object is made; without a client the
  world stays as it is. The provider (first in the file) on an empty store does nothing.
\<close>

theorem initialize_no_metadata_witness:
  "AddressMetadataStorage_load ''W'' (snd (mount_legacy legacyEnv emptyWorld))
     = [\<lparr> isMain = True, label = None, color = None, metaIndex = 0 \<rparr>]
   \<and> nextRef (snd (mount_legacy legacyEnv emptyWorld)) = 1
   \<and> snd (mount_legacy (legacyEnv\<lparr> legacyClient := None \<rparr>) emptyWorld) = emptyWorld
   \<and> AddressMetadataStorage_load ''W''
         (snd (initializationEffect_legacy legacyEnv (initialRefs_legacy legacyEnv, emptyWorld)))
       = [\<lparr> isMain = True, label = None, color = None, metaIndex = 0 \<rparr>]
   \<and> initializationEffect_legacy (legacyEnv\<lparr> legacyClient := None \<rparr>)
         (initialRefs_legacy (legacyEnv\<lparr> legacyClient := None \<rparr>), emptyWorld)
       = (initialRefs_legacy (legacyEnv\<lparr> legacyClient := None \<rparr>), emptyWorld)
   \<and> initializeCurrentNetworkAddresses unlockedEnv emptyWorld = Inr emptyWorld"
proof -
  let ?wl = "\<lparr> wallet_address = ''A'', wallet_publicKey = ''pubA'',
               wallet_privateKey = ''privA'', wallet_seed = ''seed'' \<rparr>"
  let ?noClient = "legacyEnv\<lparr> legacyClient := None \<rparr>"
  have l: "currentAccountName legacyEnv = ''W''" "wallet legacyEnv = Some ?wl"
    "legacyClient legacyEnv = Some idleClient"
    "legacyClient ?noClient = None" "wallet ?noClient = Some ?wl"
    by (simp_all add: legacyEnv_def)
  have s: "AddressMetadataStorage_load ''W'' emptyWorld = []" "nextRef emptyWorld = 0"
    by (simp_all add: AddressMetadataStorage_load_def emptyWorld_def)
  have u: "truthy (mnemonic unlockedEnv)" "activeWalletName unlockedEnv = ''W''"
    by (simp_all add: truthy_def unlockedEnv_def)
  note t = initialize_no_metadata
            [of legacyEnv ?wl emptyWorld "initialRefs_legacy legacyEnv" idleClient unlockedEnv]
  note n = initialize_no_metadata
            [of ?noClient ?wl emptyWorld "initialRefs_legacy ?noClient" idleClient unlockedEnv]
  have a: "legacyClient legacyEnv = Some idleClient \<and> wallet legacyEnv = Some ?wl
           \<and> currentAccountName legacyEnv \<noteq> []
           \<and> AddressMetadataStorage_load (currentAccountName legacyEnv) emptyWorld = []
           \<and> (initialRefs_legacy legacyEnv = initialRefs_legacy legacyEnv
               \<or> previousWallet (initialRefs_legacy legacyEnv) \<noteq> wallet legacyEnv)"
    by (simp add: l s)
  have b: "truthy (mnemonic unlockedEnv)
           \<and> (isPassphraseUsed unlockedEnv
               \<or> AddressMetadataStorage_load (activeWalletName unlockedEnv) emptyWorld = [])"
    by (simp add: u s)
  have c: "legacyClient ?noClient = None
           \<and> (initialRefs_legacy ?noClient = initialRefs_legacy ?noClient
               \<or> previousWallet (initialRefs_legacy ?noClient) \<noteq> wallet ?noClient)"
    by (simp add: l)
  have k: "cleanStateEffect_legacy ?noClient (initialRefs_legacy ?noClient, emptyWorld)
             = (initialRefs_legacy ?noClient, emptyWorld)"
    by (simp add: cleanStateEffect_legacy_def initialRefs_legacy_def l)
  from t a have 1: "AddressMetadataStorage_load (currentAccountName legacyEnv)
                   (snd (commit_legacy legacyEnv (initialRefs_legacy legacyEnv, emptyWorld)))
                 = [\<lparr> isMain = True, label = None, color = None, metaIndex = 0 \<rparr>]"
    and 2: "nextRef (snd (commit_legacy legacyEnv (initialRefs_legacy legacyEnv, emptyWorld)))
              = Suc (nextRef emptyWorld)"
    by blast+
  from n c have 3: "commit_legacy ?noClient (initialRefs_legacy ?noClient, emptyWorld)
                 = cleanStateEffect_legacy ?noClient (initialRefs_legacy ?noClient, emptyWorld)"
    by blast
  from t b have 4: "initializeCurrentNetworkAddresses unlockedEnv emptyWorld = Inr emptyWorld"
    by blast
  have g: "wallet legacyEnv = Some ?wl \<and> currentAccountName legacyEnv \<noteq> []
           \<and> AddressMetadataStorage_load (currentAccountName legacyEnv) emptyWorld = []
           \<and> (previousClient (initialRefs_legacy legacyEnv) \<noteq> legacyClient legacyEnv
               \<or> previousWallet (initialRefs_legacy legacyEnv) \<noteq> wallet legacyEnv)"
    by (simp add: l s initialRefs_legacy_def)
  from t g have 5: "AddressMetadataStorage_load (currentAccountName legacyEnv)
         (snd (initializationEffect_legacy legacyEnv (initialRefs_legacy legacyEnv, emptyWorld)))
       = [\<lparr> isMain = True, label = None, color = None, metaIndex = 0 \<rparr>]"
    by blast
  have q: "wallet ?noClient = None
           \<or> (previousClient (initialRefs_legacy ?noClient) = legacyClient ?noClient
               \<and> previousWallet (initialRefs_legacy ?noClient) = wallet ?noClient)"
    by (simp add: l initialRefs_legacy_def)
  from n q have 6: "initializationEffect_legacy ?noClient (initialRefs_legacy ?noClient, emptyWorld)
       = (initialRefs_legacy ?noClient, emptyWorld)"
    by blast
  from 1 2 3 4 5 6 show ?thesis
    by (simp add: mount_legacy_def l s k)
qed

text \<open>
  With a client that answers, the default address of the older provider is in the
  registry after the mount.
\<close>

lemma initialize_legacy_example:
  "getAddress ''mainnet'' (snd (mount_legacy legacyEnv emptyWorld)) ''A'' = Some 0"
  by (simp add: mount_legacy_def commit_legacy_def cleanStateEffect_legacy_def
        initializationEffect_legacy_def initialRefs_legacy_def
        initializeCurrentNetworkAddresses_legacy_def legacyEnv_def emptyWorld_def
        AddressMetadataStorage_load_def alloc_def defaultAddress_def saveNewAddress_legacy_def
        fetchAndStoreAddressesData_legacy_def AddressMetadataStorage_store_def Let_def emit_def
        refreshAddresses_def refreshAddress_def idleClient_def callOn_def keepReadonly_def
        new_Address_def updatePendingTransactions_def updateAddressesState_def stampAndSet_def
        getAddress_def constructMapKey_def)

end
